theory Spec2Isabelle
  imports Complex_Main "HOL-Library.Log_Nat" "HOL-Library.Multiset" "HOL-Library.AList"
begin

section \<open>JavaScript numbers\<close>

text \<open>
  A JavaScript \<open>number\<close> is an IEEE 754 binary64 value. The finite ones are rationals, and
  every arithmetic operation returns the exact result rounded to the nearest representable
  value, ties to the even significand. The rounding is written out here, since the scoring
  code divides and multiplies before it rounds to an integer.

  \<open>rne\<close> rounds a rational to the nearest integer, ties to even. \<open>ilog2 x\<close> is the binary
  exponent of \<open>x > 0\<close> (\<open>2 powi ilog2 x \<le> x < 2 powi (ilog2 x + 1)\<close>). \<open>quantum x\<close> is the
  spacing of the representable values around \<open>x\<close>: 53 significant bits, and never below
  \<open>2 powi (- 1074)\<close> (the subnormal range). \<open>fl x\<close> is the representable value nearest
  to \<open>x\<close>. Overflow to \<open>Infinity\<close> (results of magnitude \<open>2 powi 1024\<close> and more) is not
  modelled; a division by zero, whose result is \<open>Infinity\<close> or \<open>NaN\<close>, is \<open>None\<close>.
\<close>

definition rne :: "rat \<Rightarrow> int" where
  "rne y = (let f = \<lfloor>y\<rfloor>; r = y - of_int f
            in if r < 1/2 then f else if 1/2 < r then f + 1 else if even f then f else f + 1)"

definition ilog2 :: "rat \<Rightarrow> int" where
  "ilog2 x = (if 1 \<le> x then bitlen \<lfloor>x\<rfloor> - 1 else - bitlen (\<lceil>1 / x\<rceil> - 1))"

definition quantum :: "rat \<Rightarrow> rat" where
  "quantum x = 2 powi (max (ilog2 \<bar>x\<bar>) (- 1022) - 52)"

definition fl :: "rat \<Rightarrow> rat" where
  "fl x = (if x = 0 then 0 else of_int (rne (x / quantum x)) * quantum x)"

text \<open>\<open>x / y\<close> on numbers: \<open>None\<close> stands for the non-finite result of dividing by zero.\<close>

definition js_divide :: "rat \<Rightarrow> rat \<Rightarrow> rat option" where
  "js_divide x y = (if y = 0 then None else Some (fl (x / y)))"

text \<open>\<open>Math.round\<close>: the nearest integer, a tie going to the larger one; it is exact.\<close>

definition Math_round :: "rat \<Rightarrow> int" where
  "Math_round x = \<lfloor>x + 1/2\<rfloor>"

text \<open>
  Counters (\<open>attempts\<close>, \<open>questionsAnswered\<close>, ...) are natural numbers: they start at 0 and
  only grow by 1, which binary64 does exactly below \<open>2 ^ 53\<close>.
\<close>

section \<open>Data model (src/types/index.ts)\<close>

text \<open>
  The string-literal unions of the source are datatypes; where the source compares two of
  them as strings (a question's grade level against the configured one), the comparison
  goes through the literal's text. A \<open>Date\<close> is its time value (milliseconds); no code
  of the core changes a \<open>Date\<close> object.
\<close>

datatype GradeLevel = Grade_4_5 | Grade_6_8

datatype AnswerOption = Ans_a | Ans_b | Ans_c | Ans_d

datatype MasteryLevel = Mastery_new | Mastery_learning | Mastery_mastered

datatype QuizMode = Mode_quiz | Mode_flashcard | Mode_timed

record Options =
  opt_a :: string
  opt_b :: string
  opt_c :: string
  opt_d :: string

text \<open>The field \<open>id\<close> of a question is named \<open>id_q\<close> here (\<open>id\<close> is HOL's identity).
  Optional fields (\<open>explanation?\<close>, \<open>topic?\<close>) are options: \<open>None\<close> is \<open>undefined\<close>.\<close>

record Question =
  id_q :: string
  gradeLevel :: GradeLevel
  question :: string
  options :: Options
  correctAnswer :: AnswerOption
  explanation :: "string option"
  topic :: "string option"

record UserProgress =
  questionId :: string
  attempts :: nat
  correctCount :: nat
  incorrectCount :: nat
  lastAttempted :: int
  mastery :: MasteryLevel

text \<open>\<open>score\<close> is \<open>None\<close> when it is not a finite number (see \<open>js_divide\<close>).\<close>

record QuizSession =
  mode :: QuizMode
  questionsAnswered :: nat
  correctAnswers :: nat
  timeElapsed :: rat
  score :: "int option"
  startTime :: int

text \<open>The value \<open>{ correct, total }\<close> of a topic (\<open>total\<close> is a HOL constant).\<close>

record TopicStat =
  correct :: nat
  total_t :: nat

text \<open>
  A \<open>Map\<close> iterates in insertion order, and \<open>set\<close> on a key that is present keeps the
  key's place: an association list with \<open>map_of\<close> for \<open>get\<close> and \<open>AList.update\<close> for
  \<open>set\<close>.
\<close>

record ProgressStats =
  totalQuestions :: nat
  newQuestions :: nat
  learningQuestions :: nat
  masteredQuestions :: nat
  overallAccuracy :: rat
  topicBreakdown :: "(string \<times> TopicStat) list"

text \<open>
  What a JavaScript expression of type \<open>Question | null\<close> can evaluate to at run time:
  an object, \<open>null\<close>, or (from an array read outside the array) \<open>undefined\<close>.
\<close>

datatype 'a js_value = Val 'a | Null | Undefined

section \<open>Selection and scoring engine (src/core/quiz-engine.ts)\<close>

datatype ConfigGradeLevel = Cfg_4_5 | Cfg_6_8 | Cfg_9_12 | Cfg_all

fun gradeLevel_text :: "GradeLevel \<Rightarrow> string" where
  "gradeLevel_text Grade_4_5 = ''4-5''"
| "gradeLevel_text Grade_6_8 = ''6-8''"

fun configGradeLevel_text :: "ConfigGradeLevel \<Rightarrow> string" where
  "configGradeLevel_text Cfg_4_5 = ''4-5''"
| "configGradeLevel_text Cfg_6_8 = ''6-8''"
| "configGradeLevel_text Cfg_9_12 = ''9-12''"
| "configGradeLevel_text Cfg_all = ''all''"

text \<open>\<open>QuizConfig\<close>; the fields are prefixed, \<open>mode\<close>, \<open>gradeLevel\<close> and \<open>topic\<close> being
  fields of other records. \<open>questionCount\<close> is an integer when present.\<close>

record QuizConfig =
  cfg_mode :: QuizMode
  cfg_gradeLevel :: "ConfigGradeLevel option"
  cfg_topic :: "string option"
  cfg_questionCount :: "int option"

subsection \<open>selectQuestions\<close>

text \<open>
  \<open>array.slice(0, end)\<close> for an integer \<open>end\<close>: a negative \<open>end\<close> counts from the end of
  the array.
\<close>

definition slice0 :: "'a list \<Rightarrow> int \<Rightarrow> 'a list" where
  "slice0 xs end' =
     (if end' < 0 then take (nat (int (length xs) + end')) xs else take (nat end') xs)"

text \<open>
  \<open>shuffleArray\<close>. The calls of \<open>Math.random()\<close> are a stream \<open>rnd\<close>: \<open>rnd k\<close> is the value
  of call number \<open>k\<close> (a number in \<open>[0, 1)\<close>). The loop
  \<open>for (let i = shuffled.length - 1; i > 0; i--)\<close> is \<open>shuffle_loop\<close>, counting \<open>i\<close> down;
  the destructuring swap reads both elements before it writes them.
\<close>

fun shuffle_loop :: "(nat \<Rightarrow> rat) \<Rightarrow> nat \<Rightarrow> nat \<Rightarrow> 'a list \<Rightarrow> 'a list" where
  "shuffle_loop rnd k 0 shuffled = shuffled"
| "shuffle_loop rnd k (Suc n) shuffled =
     (let i = Suc n;
          j = nat \<lfloor>fl (rnd k * of_nat (i + 1))\<rfloor>
      in shuffle_loop rnd (Suc k) n (shuffled[i := shuffled ! j, j := shuffled ! i]))"

definition shuffleArray :: "(nat \<Rightarrow> rat) \<Rightarrow> 'a list \<Rightarrow> 'a list" where
  "shuffleArray rnd array = shuffle_loop rnd 0 (length array - 1) array"

text \<open>
  The two filters of \<open>selectQuestions\<close> (its first half). \<open>config.gradeLevel && ...\<close> and
  \<open>if (config.topic)\<close> test truthiness: \<open>undefined\<close> and the empty string do not filter.
\<close>

definition applyFilters :: "Question list \<Rightarrow> QuizConfig \<Rightarrow> Question list" where
  "applyFilters allQuestions config =
     (let filtered = allQuestions;
          filtered = (case cfg_gradeLevel config of
                        Some g \<Rightarrow>
                          if g \<noteq> Cfg_all
                          then filter (\<lambda>q. gradeLevel_text (gradeLevel q) = configGradeLevel_text g) filtered
                          else filtered
                      | None \<Rightarrow> filtered);
          filtered = (case cfg_topic config of
                        Some t \<Rightarrow>
                          if t \<noteq> [] then filter (\<lambda>q. topic q = Some t) filtered else filtered
                      | None \<Rightarrow> filtered)
      in filtered)"

text \<open>\<open>config.questionCount || shuffled.length\<close>: \<open>undefined\<close> and \<open>0\<close> are falsy.\<close>

definition selectQuestions :: "(nat \<Rightarrow> rat) \<Rightarrow> Question list \<Rightarrow> QuizConfig \<Rightarrow> Question list" where
  "selectQuestions rnd allQuestions config =
     (let shuffled = shuffleArray rnd (applyFilters allQuestions config);
          count = (case cfg_questionCount config of
                     Some n \<Rightarrow> if n \<noteq> 0 then n else int (length shuffled)
                   | None \<Rightarrow> int (length shuffled))
      in slice0 shuffled count)"

text \<open>The questions that a configuration asks for, in the words of the specification: the
  grade level matches unless the filter is absent or \<open>all\<close>, and the topic is exactly the
  configured one unless that is absent (or empty).\<close>

definition matches_config :: "QuizConfig \<Rightarrow> Question \<Rightarrow> bool" where
  "matches_config config q \<longleftrightarrow>
     (case cfg_gradeLevel config of
        None \<Rightarrow> True
      | Some g \<Rightarrow> g = Cfg_all \<or> gradeLevel_text (gradeLevel q) = configGradeLevel_text g)
     \<and> (case cfg_topic config of
          None \<Rightarrow> True
        | Some t \<Rightarrow> t = [] \<or> topic q = Some t)"

subsection \<open>calculateScore\<close>

text \<open>
  The arguments are named with a prime where a record field has the name. A zero
  \<open>totalQuestions\<close> makes every path return \<open>Infinity\<close> or \<open>NaN\<close>: \<open>None\<close>.
\<close>

definition calculateScore :: "nat \<Rightarrow> nat \<Rightarrow> rat \<Rightarrow> QuizMode \<Rightarrow> int option" where
  "calculateScore correctAnswers' totalQuestions' timeElapsed' mode' =
     (case js_divide (of_nat correctAnswers') (of_nat totalQuestions') of
        None \<Rightarrow> None
      | Some ratio \<Rightarrow>
          let baseScore = fl (ratio * 100)
          in if mode' = Mode_timed
             then (case js_divide timeElapsed' (of_nat totalQuestions') of
                     None \<Rightarrow> None
                   | Some avgTimePerQuestion \<Rightarrow>
                       let timeBonus = max 0 (fl (20 - avgTimePerQuestion))
                       in Some (Math_round (fl (baseScore + timeBonus))))
             else Some (Math_round baseScore))"

text \<open>
  The score in the words of the specification, before it is rounded: the exact value of
  \<open>100 * correctAnswers / totalQuestions\<close>, plus the bonus
  \<open>max(0, 20 - timeElapsed / totalQuestions)\<close> in timed mode. The specification rounds it to
  the nearest integer with midpoints up, which is \<open>round\<close>.
\<close>

definition exact_score :: "nat \<Rightarrow> nat \<Rightarrow> rat \<Rightarrow> QuizMode \<Rightarrow> rat" where
  "exact_score correctAnswers' totalQuestions' timeElapsed' mode' =
     100 * of_nat correctAnswers' / of_nat totalQuestions'
     + (if mode' = Mode_timed then max 0 (20 - timeElapsed' / of_nat totalQuestions') else 0)"

subsection \<open>createSession, updateSession\<close>

text \<open>\<open>new Date()\<close> is the argument \<open>now\<close>.\<close>

definition createSession :: "int \<Rightarrow> QuizMode \<Rightarrow> QuizSession" where
  "createSession now mode' =
     \<lparr>mode = mode', questionsAnswered = 0, correctAnswers = 0, timeElapsed = 0,
      score = Some 0, startTime = now\<rparr>"

definition updateSession :: "QuizSession \<Rightarrow> bool \<Rightarrow> rat \<Rightarrow> QuizSession" where
  "updateSession session isCorrect timeTaken =
     (let newSession = session
            \<lparr>questionsAnswered := questionsAnswered session + 1,
             correctAnswers := correctAnswers session + (if isCorrect then 1 else 0),
             timeElapsed := fl (timeElapsed session + timeTaken)\<rparr>
      in newSession
           \<lparr>score := calculateScore (correctAnswers newSession) (questionsAnswered newSession)
                       (timeElapsed newSession) (mode newSession)\<rparr>)"

subsection \<open>getNextQuestion, isQuizComplete\<close>

text \<open>
  \<open>questions[currentIndex]\<close> for an integer index: the element when
  \<open>0 \<le> currentIndex < length\<close>, and \<open>undefined\<close> otherwise (a property that the array
  does not have). A read never throws.
\<close>

definition array_get :: "'a list \<Rightarrow> int \<Rightarrow> 'a js_value" where
  "array_get xs i = (if 0 \<le> i \<and> i < int (length xs) then Val (xs ! nat i) else Undefined)"

definition getNextQuestion :: "Question list \<Rightarrow> int \<Rightarrow> Question js_value" where
  "getNextQuestion questions currentIndex =
     (if currentIndex \<ge> int (length questions) then Null
      else array_get questions currentIndex)"

definition isQuizComplete :: "int \<Rightarrow> int \<Rightarrow> bool" where
  "isQuizComplete currentIndex totalQuestions' \<longleftrightarrow> currentIndex \<ge> totalQuestions'"

section \<open>Progress and mastery tracker (progress-tracker.ts, in src/unnamed/part_001)\<close>

subsection \<open>createProgress, calculateMastery, updateProgress, resetProgress\<close>

definition createProgress :: "int \<Rightarrow> string \<Rightarrow> UserProgress" where
  "createProgress now questionId' =
     \<lparr>questionId = questionId', attempts = 0, correctCount = 0, incorrectCount = 0,
      lastAttempted = now, mastery = Mastery_new\<rparr>"

text \<open>The division is reached with \<open>attempts \<ge> 3\<close> only; \<open>0.8\<close> is the number nearest to
  \<open>4/5\<close>.\<close>

definition calculateMastery :: "UserProgress \<Rightarrow> MasteryLevel" where
  "calculateMastery progress =
     (if attempts progress < 3 then Mastery_new
      else let accuracy = fl (of_nat (correctCount progress) / of_nat (attempts progress))
           in if attempts progress \<ge> 5 \<and> accuracy \<ge> fl (4/5) then Mastery_mastered
              else Mastery_learning)"

definition updateProgress :: "int \<Rightarrow> UserProgress \<Rightarrow> bool \<Rightarrow> UserProgress" where
  "updateProgress now progress isCorrect =
     (let newProgress = progress
            \<lparr>attempts := attempts progress + 1,
             correctCount := correctCount progress + (if isCorrect then 1 else 0),
             incorrectCount := incorrectCount progress + (if isCorrect then 0 else 1),
             lastAttempted := now,
             mastery := mastery progress\<rparr>
      in newProgress\<lparr>mastery := calculateMastery newProgress\<rparr>)"

definition resetProgress :: "int \<Rightarrow> UserProgress \<Rightarrow> UserProgress" where
  "resetProgress now progress = createProgress now (questionId progress)"

text \<open>A sequence of operations on one record, each with the time at which it runs.\<close>

datatype ProgressOp = Op_update int bool | Op_reset int

fun apply_op :: "UserProgress \<Rightarrow> ProgressOp \<Rightarrow> UserProgress" where
  "apply_op p (Op_update now isCorrect) = updateProgress now p isCorrect"
| "apply_op p (Op_reset now) = resetProgress now p"

definition run_ops :: "int \<Rightarrow> string \<Rightarrow> ProgressOp list \<Rightarrow> UserProgress" where
  "run_ops now questionId' ops = foldl apply_op (createProgress now questionId') ops"

text \<open>
  The classification rule in the words of the specification, with the accuracy
  \<open>correctCount / attempts\<close> an exact quotient.
\<close>

definition mastery_rule_spec :: "nat \<Rightarrow> nat \<Rightarrow> MasteryLevel" where
  "mastery_rule_spec attempts' correctCount' =
     (if attempts' < 3 then Mastery_new
      else if attempts' < 5 \<or> (of_nat correctCount' / of_nat attempts' :: rat) < 4/5
           then Mastery_learning
           else Mastery_mastered)"

text \<open>
  The invariant of a record in the words of the specification: the counts add up, and the
  stored mastery is what the rule of the specification gives for (attempts, correctCount).
\<close>

definition progress_invariant :: "UserProgress \<Rightarrow> bool" where
  "progress_invariant p \<longleftrightarrow>
     attempts p = correctCount p + incorrectCount p
     \<and> mastery p = mastery_rule_spec (attempts p) (correctCount p)"

subsection \<open>calculateStats\<close>

text \<open>\<open>new Map(progressList.map((p) => [p.questionId, p]))\<close>: the entries are set in
  order, so the last record of a question id is the one the map holds.\<close>

definition progressMap_of :: "UserProgress list \<Rightarrow> (string \<rightharpoonup> UserProgress)" where
  "progressMap_of progressList = fold (\<lambda>p m. m(questionId p \<mapsto> p)) progressList Map.empty"

text \<open>The variables that the \<open>forEach\<close> loop of \<open>calculateStats\<close> updates.\<close>

record StatsLoop =
  newCount :: nat
  learningCount :: nat
  masteredCount :: nat
  totalCorrect :: nat
  totalAttempts :: nat
  breakdown :: "(string \<times> TopicStat) list"

definition stats_step :: "(string \<rightharpoonup> UserProgress) \<Rightarrow> Question \<Rightarrow> StatsLoop \<Rightarrow> StatsLoop" where
  "stats_step progressMap q s =
     (case progressMap (id_q q) of
        None \<Rightarrow> s\<lparr>newCount := newCount s + 1\<rparr>
      | Some progress \<Rightarrow>
          let s = (case mastery progress of
                     Mastery_new \<Rightarrow> s\<lparr>newCount := newCount s + 1\<rparr>
                   | Mastery_learning \<Rightarrow> s\<lparr>learningCount := learningCount s + 1\<rparr>
                   | Mastery_mastered \<Rightarrow> s\<lparr>masteredCount := masteredCount s + 1\<rparr>);
              s = s\<lparr>totalCorrect := totalCorrect s + correctCount progress,
                     totalAttempts := totalAttempts s + attempts progress\<rparr>
          in (case topic q of
                Some t \<Rightarrow>
                  if t \<noteq> []
                  then let current = (case map_of (breakdown s) t of
                                        Some cur \<Rightarrow> cur
                                      | None \<Rightarrow> \<lparr>correct = 0, total_t = 0\<rparr>)
                       in s\<lparr>breakdown :=
                              AList.update t
                                \<lparr>correct = correct current + correctCount progress,
                                 total_t = total_t current + attempts progress\<rparr>
                                (breakdown s)\<rparr>
                  else s
              | None \<Rightarrow> s))"

definition calculateStats :: "UserProgress list \<Rightarrow> Question list \<Rightarrow> ProgressStats" where
  "calculateStats progressList allQuestions =
     (let progressMap = progressMap_of progressList;
          s = fold (stats_step progressMap) allQuestions
                \<lparr>newCount = 0, learningCount = 0, masteredCount = 0, totalCorrect = 0,
                 totalAttempts = 0, breakdown = []\<rparr>;
          overallAccuracy' = (if totalAttempts s > 0
                              then fl (of_nat (totalCorrect s) / of_nat (totalAttempts s))
                              else 0)
      in \<lparr>totalQuestions = length allQuestions,
          newQuestions = newCount s,
          learningQuestions = learningCount s,
          masteredQuestions = masteredCount s,
          overallAccuracy = overallAccuracy',
          topicBreakdown = breakdown s\<rparr>)"

text \<open>
  What the statistics are about, in the words of the specification: a catalog question
  counts at a mastery level (\<open>new\<close> when it has no record, else the stored tag of its
  record); the correct answers and attempts that its record contributes (none without a
  record); and whether it contributes to a topic (it has that topic, the topic is not
  empty, and it has a record).
\<close>

definition counts_as :: "(string \<rightharpoonup> UserProgress) \<Rightarrow> MasteryLevel \<Rightarrow> Question \<Rightarrow> bool" where
  "counts_as pm l q = (case pm (id_q q) of None \<Rightarrow> l = Mastery_new | Some p \<Rightarrow> mastery p = l)"

definition correct_of :: "(string \<rightharpoonup> UserProgress) \<Rightarrow> Question \<Rightarrow> nat" where
  "correct_of pm q = (case pm (id_q q) of None \<Rightarrow> 0 | Some p \<Rightarrow> correctCount p)"

definition attempts_of :: "(string \<rightharpoonup> UserProgress) \<Rightarrow> Question \<Rightarrow> nat" where
  "attempts_of pm q = (case pm (id_q q) of None \<Rightarrow> 0 | Some p \<Rightarrow> attempts p)"

definition in_topic :: "(string \<rightharpoonup> UserProgress) \<Rightarrow> string \<Rightarrow> Question \<Rightarrow> bool" where
  "in_topic pm t q \<longleftrightarrow> topic q = Some t \<and> t \<noteq> [] \<and> pm (id_q q) \<noteq> None"

subsection \<open>getWeakestTopics\<close>

text \<open>The objects \<open>{ topic, accuracy, total }\<close> that \<open>getWeakestTopics\<close> ranks.\<close>

record TopicAccuracy =
  ta_topic :: string
  accuracy :: rat
  ta_total :: nat




section \<open>Objects and references\<close>

text \<open>
  The update operations receive a reference to an object and build a new object with the
  spread syntax, which they then assign to. To state that the argument is not changed, the
  objects live in a store: a reference is an index into it, an object literal allocates a new
  cell, an assignment to a field overwrites a cell.
\<close>

type_synonym 'a store = "'a list"

definition alloc :: "'a store \<Rightarrow> 'a \<Rightarrow> 'a store \<times> nat" where
  "alloc h v = (h @ [v], length h)"

definition updateSession_store ::
  "QuizSession store \<Rightarrow> nat \<Rightarrow> bool \<Rightarrow> rat \<Rightarrow> QuizSession store \<times> nat" where
  "updateSession_store h session isCorrect timeTaken =
     (let (h, newSession) = alloc h
            ((h ! session)
               \<lparr>questionsAnswered := questionsAnswered (h ! session) + 1,
                correctAnswers := correctAnswers (h ! session) + (if isCorrect then 1 else 0),
                timeElapsed := fl (timeElapsed (h ! session) + timeTaken)\<rparr>);
          h = h[newSession := (h ! newSession)
                  \<lparr>score := calculateScore (correctAnswers (h ! newSession))
                              (questionsAnswered (h ! newSession))
                              (timeElapsed (h ! newSession)) (mode (h ! newSession))\<rparr>]
      in (h, newSession))"

definition updateProgress_store ::
  "int \<Rightarrow> UserProgress store \<Rightarrow> nat \<Rightarrow> bool \<Rightarrow> UserProgress store \<times> nat" where
  "updateProgress_store now h progress isCorrect =
     (let (h, newProgress) = alloc h
            ((h ! progress)
               \<lparr>attempts := attempts (h ! progress) + 1,
                correctCount := correctCount (h ! progress) + (if isCorrect then 1 else 0),
                incorrectCount := incorrectCount (h ! progress) + (if isCorrect then 0 else 1),
                lastAttempted := now,
                mastery := mastery (h ! progress)\<rparr>);
          h = h[newProgress := (h ! newProgress)\<lparr>mastery := calculateMastery (h ! newProgress)\<rparr>]
      in (h, newProgress))"

section \<open>Example data (the fixtures of the repository's tests)\<close>

definition mockOptions :: Options where
  "mockOptions = \<lparr>opt_a = ''A'', opt_b = ''B'', opt_c = ''C'', opt_d = ''D''\<rparr>"

definition mock_q1 :: Question where
  "mock_q1 = \<lparr>id_q = ''q1'', gradeLevel = Grade_6_8, question = ''Q1'', options = mockOptions,
     correctAnswer = Ans_a, explanation = None, topic = Some ''wind''\<rparr>"

definition mock_q2 :: Question where
  "mock_q2 = \<lparr>id_q = ''q2'', gradeLevel = Grade_4_5, question = ''Q2'', options = mockOptions,
     correctAnswer = Ans_b, explanation = None, topic = Some ''solar''\<rparr>"

definition mock_q3 :: Question where
  "mock_q3 = \<lparr>id_q = ''q3'', gradeLevel = Grade_6_8, question = ''Q3'', options = mockOptions,
     correctAnswer = Ans_c, explanation = None, topic = Some ''wind''\<rparr>"

definition mockQuestions :: "Question list" where
  "mockQuestions = [mock_q1, mock_q2, mock_q3]"

text \<open>A progress record with given attempts and correct answers (the
  shape of the records in the tests of the tracker).\<close>

definition mock_progress_of :: "string \<Rightarrow> nat \<Rightarrow> nat \<Rightarrow> UserProgress" where
  "mock_progress_of qid n k =
     \<lparr>questionId = qid, attempts = n, correctCount = k, incorrectCount = n - k,
      lastAttempted = 0,
      mastery = (if n < 3 then Mastery_new
                 else if n \<ge> 5 \<and> 5 * k \<ge> 4 * n then Mastery_mastered else Mastery_learning)\<rparr>"

definition config_count_0 :: QuizConfig where
  "config_count_0 =
     \<lparr>cfg_mode = Mode_quiz, cfg_gradeLevel = None, cfg_topic = None,
      cfg_questionCount = Some 0\<rparr>"

definition config_wind_1 :: QuizConfig where
  "config_wind_1 =
     \<lparr>cfg_mode = Mode_quiz, cfg_gradeLevel = Some Cfg_6_8, cfg_topic = Some ''wind'',
      cfg_questionCount = Some 1\<rparr>"



definition mock_progress :: "nat \<Rightarrow> nat \<Rightarrow> UserProgress" where
  "mock_progress n k = mock_progress_of ''q1'' n k"

section \<open>Properties\<close>

subsection \<open>Rounding to the nearest number\<close>

lemma rne_of_int: "rne (of_int n) = n"
  by (simp add: rne_def)

lemma rne_lower: "\<lfloor>y\<rfloor> \<le> rne y"
  by (simp add: rne_def Let_def)

lemma rne_upper: "rne y \<le> \<lceil>y\<rceil>"
  unfolding rne_def Let_def
  by (auto simp: ceiling_altdef) 

lemma rne_err: "\<bar>of_int (rne y) - y\<bar> \<le> 1/2"
proof -
  define f where "f = \<lfloor>y\<rfloor>"
  have "of_int f \<le> y" "y < of_int f + 1"
    unfolding f_def by linarith+
  then show ?thesis
    unfolding rne_def Let_def f_def [symmetric] by (auto simp: abs_if)
qed

lemma rne_mono: "x \<le> y \<Longrightarrow> rne x \<le> rne y"
proof (cases "\<lfloor>x\<rfloor> = \<lfloor>y\<rfloor>")
  case True
  assume "x \<le> y"
  then show ?thesis
    unfolding rne_def Let_def True by auto
next
  case False
  assume "x \<le> y"
  then have "\<lfloor>x\<rfloor> < \<lfloor>y\<rfloor>"
    using False floor_mono [of x y] by linarith
  moreover have "\<lceil>x\<rceil> \<le> \<lfloor>x\<rfloor> + 1"
    by (simp add: ceiling_altdef)
  ultimately show ?thesis
    using rne_upper [of x] rne_lower [of y] by linarith
qed

lemma rne_minus: "rne (- y) = - rne y"
proof (cases "y = of_int \<lfloor>y\<rfloor>")
  case True
  then obtain n where "y = of_int n" ..
  then have "- y = of_int (- n)" by simp
  then show ?thesis
    using \<open>y = of_int n\<close> rne_of_int by metis
next
  case False
  then have lt: "of_int \<lfloor>y\<rfloor> < y"
    using of_int_floor_le [of y] by linarith
  have "y < of_int \<lfloor>y\<rfloor> + 1"
    by linarith
  with lt have fl: "\<lfloor>- y\<rfloor> = - \<lfloor>y\<rfloor> - 1"
    by (intro floor_unique) simp_all
  show ?thesis
    unfolding rne_def Let_def fl by auto
qed

lemma ilog2_bounds:
  assumes "0 < x"
  shows "2 powi (ilog2 x) \<le> x" and "x < 2 powi (ilog2 x + 1)"
proof -
  have "2 powi (ilog2 x) \<le> x \<and> x < 2 powi (ilog2 x + 1)"
  proof (cases "1 \<le> x")
    case True
    define n where "n = \<lfloor>x\<rfloor>"
    have n: "0 < n" using True by (simp add: n_def)
    have b: "1 \<le> bitlen n" using n bitlen_eq_zero_iff [of n] bitlen_nonneg [of n] by linarith
    have il: "ilog2 x = bitlen n - 1" using True by (simp add: ilog2_def n_def)
    from bitlen_bounds [OF n] have lo: "2 ^ nat (bitlen n - 1) \<le> n" and hi: "n + 1 \<le> 2 ^ nat (bitlen n)"
      by auto
    have "(2::rat) ^ nat (bitlen n - 1) \<le> of_int n"
      using lo by (metis of_int_le_iff of_int_numeral of_int_power)
    also have "\<dots> \<le> x" by (simp add: n_def)
    finally have 1: "2 powi (ilog2 x) \<le> x"
      using b by (simp add: il power_int_def)
    have "x < of_int (n + 1)" unfolding n_def by linarith
    also have "\<dots> \<le> of_int (2 ^ nat (bitlen n))"
      using hi of_int_le_iff by blast
    finally have 2: "x < 2 powi (ilog2 x + 1)"
      using b by (simp add: il power_int_def)
    from 1 2 show ?thesis ..
  next
    case False
    define m where "m = \<lceil>1 / x\<rceil> - 1"
    have x1: "1 < 1 / x" using False assms by simp
    then have m: "0 < m" unfolding m_def by linarith
    have b: "1 \<le> bitlen m" using m bitlen_eq_zero_iff [of m] bitlen_nonneg [of m] by linarith
    have il: "ilog2 x = - bitlen m" using False by (simp add: ilog2_def m_def)
    from bitlen_bounds [OF m] have lo: "2 ^ nat (bitlen m - 1) \<le> m" and hi: "m + 1 \<le> 2 ^ nat (bitlen m)"
      by auto
    have "1 / x \<le> of_int (m + 1)" unfolding m_def by simp
    also have "\<dots> \<le> of_int (2 ^ nat (bitlen m))"
      using hi of_int_le_iff by blast
    finally have "1 / x \<le> 2 ^ nat (bitlen m)" by simp
    then have "1 / 2 ^ nat (bitlen m) \<le> x"
      using assms by (simp add: field_simps)
    then have 1: "2 powi (ilog2 x) \<le> x"
      using b by (simp add: il power_int_def field_simps)
    have "(2::rat) ^ nat (bitlen m - 1) \<le> of_int m"
      using lo by (metis of_int_le_iff of_int_numeral of_int_power)
    also have "\<dots> < 1 / x" unfolding m_def by linarith
    finally have "x < 1 / 2 ^ nat (bitlen m - 1)"
      using assms by (simp add: field_simps)
    moreover have "2 powi (ilog2 x + 1) = (1::rat) / 2 ^ nat (bitlen m - 1)"
    proof -
      have "ilog2 x + 1 = - (bitlen m - 1)" by (simp add: il)
      then have "(2::rat) powi (ilog2 x + 1) = 1 / 2 powi (bitlen m - 1)"
        by (simp only: power_int_minus_divide)
      then show ?thesis using b
        by (simp add: power_int_nonneg_exp)
    qed
    ultimately have 2: "x < 2 powi (ilog2 x + 1)" by simp
    from 1 2 show ?thesis ..
  qed
  then show "2 powi (ilog2 x) \<le> x" and "x < 2 powi (ilog2 x + 1)" by auto
qed

lemma pow2_less_imp: "(2::rat) powi m < 2 powi n \<Longrightarrow> m < n"
  using power_int_increasing [of n m "2::rat"] by (cases "m < n") auto

lemma ilog2_mono:
  assumes "0 < x" "x \<le> y"
  shows "ilog2 x \<le> ilog2 y"
proof -
  have "(2::rat) powi (ilog2 x) \<le> x" using ilog2_bounds(1) assms by simp
  also have "\<dots> \<le> y" by fact
  also have "\<dots> < 2 powi (ilog2 y + 1)" using ilog2_bounds(2) [of y] assms by simp
  finally have "ilog2 x < ilog2 y + 1"
    by (rule pow2_less_imp)
  then show ?thesis by simp
qed


lemma quantum_pos: "0 < quantum x"
  by (simp add: quantum_def)

lemma quantum_minus: "quantum (- x) = quantum x"
  by (simp add: quantum_def)

lemma fl_minus: "fl (- x) = - fl x"
  by (simp add: fl_def quantum_minus rne_minus)

lemma fl_nonneg: "0 \<le> x \<Longrightarrow> 0 \<le> fl x"
proof -
  assume "0 \<le> x"
  then have "0 \<le> x / quantum x"
    using quantum_pos [of x] by simp
  then have "rne 0 \<le> rne (x / quantum x)"
    by (rule rne_mono)
  then have "0 \<le> rne (x / quantum x)"
    using rne_of_int [of 0] by simp
  then show ?thesis
    using quantum_pos [of x] by (simp add: fl_def)
qed

lemma fl_upper:
  assumes "0 < x"
  shows "fl x \<le> 2 powi (max (ilog2 x) (- 1022) + 1)"
proof -
  define E where "E = max (ilog2 x) (- 1022)"
  have q: "quantum x = 2 powi (E - 52)"
    using assms by (simp add: quantum_def E_def)
  have "x < 2 powi (ilog2 x + 1)"
    using ilog2_bounds(2) [OF assms] .
  also have "\<dots> \<le> 2 powi (E + 1)"
    by (rule power_int_increasing) (simp_all add: E_def)
  finally have "x < 2 powi (E + 1)" .
  moreover have "(2::rat) powi (E + 1) = 2 ^ 53 * quantum x"
  proof -
    have "E + 1 = (E - 52) + 53" by simp
    then have "(2::rat) powi (E + 1) = 2 powi ((E - 52) + 53)" by (rule arg_cong)
    also have "\<dots> = 2 powi (E - 52) * 2 powi 53"
      by (rule power_int_add) simp
    finally show ?thesis by (simp add: q)
  qed
  ultimately have "x / quantum x \<le> 2 ^ 53"
    using quantum_pos [of x] by (simp add: field_simps)
  then have "x / quantum x \<le> of_int (2 ^ 53)"
    by simp
  then have "rne (x / quantum x) \<le> rne (of_int (2 ^ 53))"
    by (rule rne_mono)
  then have "rne (x / quantum x) \<le> 2 ^ 53"
    by (simp only: rne_of_int)
  then have "(of_int (rne (x / quantum x)) :: rat) \<le> of_int (2 ^ 53)"
    by (simp only: of_int_le_iff)
  then have "of_int (rne (x / quantum x)) * quantum x \<le> 2 ^ 53 * quantum x"
    using quantum_pos [of x] by simp
  then show ?thesis
    using assms \<open>2 powi (E + 1) = 2 ^ 53 * quantum x\<close>
    by (simp add: fl_def E_def)
qed

lemma fl_lower:
  assumes "0 < x" "- 1022 \<le> ilog2 x"
  shows "2 powi (ilog2 x) \<le> fl x"
proof -
  define E where "E = ilog2 x"
  have q: "quantum x = 2 powi (E - 52)"
    using assms by (simp add: quantum_def E_def max_def)
  have "2 powi E \<le> x"
    unfolding E_def using ilog2_bounds(1) [OF assms(1)] .
  moreover have "(2::rat) powi E = 2 ^ 52 * quantum x"
  proof -
    have "(2::rat) powi E = 2 powi ((E - 52) + 52)" by simp
    also have "\<dots> = 2 powi (E - 52) * 2 powi 52"
      by (rule power_int_add) simp
    finally show ?thesis by (simp add: q)
  qed
  ultimately have "2 ^ 52 \<le> x / quantum x"
    using quantum_pos [of x] by (simp add: field_simps)
  then have "of_int (2 ^ 52) \<le> x / quantum x"
    by simp
  then have "rne (of_int (2 ^ 52)) \<le> rne (x / quantum x)"
    by (rule rne_mono)
  then have "2 ^ 52 \<le> rne (x / quantum x)"
    by (simp only: rne_of_int)
  then have "(of_int (2 ^ 52) :: rat) \<le> of_int (rne (x / quantum x))"
    by (simp only: of_int_le_iff)
  then have "2 ^ 52 * quantum x \<le> of_int (rne (x / quantum x)) * quantum x"
    using quantum_pos [of x] by simp
  then show ?thesis
    using assms \<open>2 powi E = 2 ^ 52 * quantum x\<close>
    by (simp add: fl_def E_def)
qed

lemma fl_mono_pos:
  assumes "0 < x" "x \<le> y"
  shows "fl x \<le> fl y"
proof -
  define Ex where "Ex = max (ilog2 x) (- 1022)"
  define Ey where "Ey = max (ilog2 y) (- 1022)"
  have y: "0 < y" using assms by simp
  have le: "Ex \<le> Ey"
    using ilog2_mono [OF assms] by (simp add: Ex_def Ey_def max_def)
  show ?thesis
  proof (cases "Ex = Ey")
    case True
    then have q: "quantum x = quantum y"
      using assms y by (simp add: quantum_def Ex_def Ey_def)
    have "x / quantum y \<le> y / quantum y"
      using assms quantum_pos [of y] by (simp add: divide_right_mono)
    then have "rne (x / quantum y) \<le> rne (y / quantum y)"
      by (rule rne_mono)
    then have "(of_int (rne (x / quantum y)) :: rat) \<le> of_int (rne (y / quantum y))"
      by (simp only: of_int_le_iff)
    then have "of_int (rne (x / quantum y)) * quantum y \<le> of_int (rne (y / quantum y)) * quantum y"
      using quantum_pos [of y] by simp
    then show ?thesis
      using assms y by (simp add: fl_def q)
  next
    case False
    then have lt: "Ex + 1 \<le> Ey" using le by simp
    then have Ey: "Ey = ilog2 y" "- 1022 \<le> ilog2 y"
      by (auto simp: Ex_def Ey_def max_def split: if_splits)
    have "fl x \<le> 2 powi (Ex + 1)"
      unfolding Ex_def by (rule fl_upper [OF assms(1)])
    also have "\<dots> \<le> 2 powi Ey"
      by (rule power_int_increasing [OF lt]) simp
    also have "\<dots> \<le> fl y"
      unfolding Ey(1) by (rule fl_lower [OF y Ey(2)])
    finally show ?thesis .
  qed
qed

lemma fl_mono:
  assumes "x \<le> y"
  shows "fl x \<le> fl y"
proof -
  consider "0 < x" | "y < 0" | "x \<le> 0" "0 \<le> y"
    using assms by linarith
  then show ?thesis
  proof cases
    case 1
    then show ?thesis using assms by (rule fl_mono_pos)
  next
    case 2
    then have "fl (- y) \<le> fl (- x)"
      using assms by (intro fl_mono_pos) simp_all
    then show ?thesis by (simp add: fl_minus)
  next
    case 3
    then have "0 \<le> fl (- x)" "0 \<le> fl y"
      by (simp_all add: fl_nonneg)
    then show ?thesis by (simp add: fl_minus)
  qed
qed

lemma fl_err_quantum: "\<bar>fl x - x\<bar> \<le> quantum x / 2"
proof (cases "x = 0")
  case True
  then show ?thesis using quantum_pos [of x] by (simp add: fl_def)
next
  case False
  define q where "q = quantum x"
  have q: "0 < q" by (simp add: q_def quantum_pos)
  have "fl x - x = (of_int (rne (x / q)) - x / q) * q"
    using False q by (simp add: fl_def q_def field_simps)
  then have "\<bar>fl x - x\<bar> = \<bar>of_int (rne (x / q)) - x / q\<bar> * q"
    using q by (simp add: abs_mult)
  also have "\<dots> \<le> 1 / 2 * q"
    using rne_err [of "x / q"] q by (intro mult_right_mono) simp_all
  finally show ?thesis by (simp add: q_def)
qed

lemma quantum_le:
  assumes "x \<noteq> 0"
  shows "quantum x \<le> \<bar>x\<bar> / 2 ^ 52 + 1 / 2 ^ 1074"
proof (cases "ilog2 \<bar>x\<bar> < - 1022")
  case True
  then have "quantum x = 2 powi (- 1074)"
    by (auto simp: quantum_def max_def)
  also have "\<dots> = 1 / 2 ^ 1074"
    by (simp add: power_int_minus_divide)
  finally show ?thesis by simp
next
  case False
  with assms have x: "0 < \<bar>x\<bar>" and q: "quantum x = 2 powi (ilog2 \<bar>x\<bar> - 52)"
    by (auto simp: quantum_def max_def)
  have "2 powi (ilog2 \<bar>x\<bar>) \<le> \<bar>x\<bar>"
    using ilog2_bounds(1) [OF x] .
  moreover have "(2::rat) powi (ilog2 \<bar>x\<bar>) = 2 ^ 52 * quantum x"
  proof -
    have "(2::rat) powi (ilog2 \<bar>x\<bar>) = 2 powi ((ilog2 \<bar>x\<bar> - 52) + 52)" by simp
    also have "\<dots> = 2 powi (ilog2 \<bar>x\<bar> - 52) * 2 powi 52"
      by (rule power_int_add) simp
    finally show ?thesis by (simp add: q)
  qed
  ultimately have "quantum x \<le> \<bar>x\<bar> / 2 ^ 52"
    by (simp add: field_simps)
  then show ?thesis
    by (smt (verit) divide_nonneg_nonneg zero_le_numeral zero_le_power zero_le_one add_increasing2)
qed

lemma fl_err: "\<bar>fl x - x\<bar> \<le> \<bar>x\<bar> / 2 ^ 53 + 1 / 2 ^ 1075"
proof (cases "x = 0")
  case True
  then show ?thesis by (simp add: fl_def)
next
  case False
  then show ?thesis
    using fl_err_quantum [of x] quantum_le [of x] by simp
qed

subsection \<open>calculateScore against the exact score\<close>

lemma fl_err_bound:
  assumes "\<bar>x\<bar> \<le> K"
  shows "\<bar>fl x - x\<bar> \<le> (K + 1) / 2 ^ 53"
proof -
  have "\<bar>fl x - x\<bar> \<le> \<bar>x\<bar> / 2 ^ 53 + 1 / 2 ^ 1075"
    by (rule fl_err)
  also have "\<bar>x\<bar> / 2 ^ 53 \<le> K / 2 ^ 53"
    using assms by (simp add: divide_right_mono)
  also have "(1::rat) / 2 ^ 1075 \<le> 1 / 2 ^ 53"
    by simp
  finally show ?thesis
    by (simp add: add_divide_distrib)
qed

lemma fl_40: "fl 40 = 40" by code_simp
lemma fl_m20: "fl (- 20) = - 20" by code_simp

lemma base_error:
  assumes "0 < t" "c \<le> t"
  defines "v \<equiv> 100 * (of_nat c :: rat) / of_nat t"
  shows "\<bar>fl (fl (of_nat c / of_nat t) * 100) - v\<bar> \<le> 403 / 2 ^ 53"
proof -
  define u where "u = (1::rat) / 2 ^ 53"
  have u: "0 < u" "u \<le> 1 / 100" by (simp_all add: u_def)
  define x where "x = (of_nat c :: rat) / of_nat t"
  have x: "0 \<le> x" "x \<le> 1" using assms by (simp_all add: x_def)
  define r where "r = fl x"
  have "\<bar>r - x\<bar> \<le> (1 + 1) / 2 ^ 53"
    unfolding r_def using x by (intro fl_err_bound) simp
  then have rx: "\<bar>r - x\<bar> \<le> 2 * u" by (simp add: u_def)
  have r0: "0 \<le> r" unfolding r_def using x(1) by (rule fl_nonneg)
  have r2: "r \<le> 2" using rx x u by (simp add: abs_le_iff)
  have "\<bar>fl (r * 100) - r * 100\<bar> \<le> (200 + 1) / 2 ^ 53"
    using r0 r2 by (intro fl_err_bound) simp
  then have b: "\<bar>fl (r * 100) - r * 100\<bar> \<le> 201 * u" by (simp add: u_def)
  have "v = 100 * x" by (simp add: v_def x_def)
  then have "\<bar>fl (r * 100) - v\<bar> \<le> 403 * u"
    using b rx by (simp add: abs_le_iff)
  then show ?thesis by (simp add: r_def x_def u_def)
qed

lemma bonus_error:
  assumes "0 < t" "0 \<le> e"
  defines "B \<equiv> max 0 (20 - e / of_nat t)"
  defines "B' \<equiv> max 0 (fl (20 - fl (e / of_nat t)))"
  shows "\<bar>B' - B\<bar> \<le> 63 / 2 ^ 53" and "0 \<le> B'" and "B' \<le> 21"
proof -
  define u where "u = (1::rat) / 2 ^ 53"
  have u: "0 < u" "u \<le> 1 / 100" by (simp_all add: u_def)
  define y where "y = e / of_nat t"
  have y: "0 \<le> y" using assms by (simp add: y_def)
  define a where "a = fl y"
  have a0: "0 \<le> a" unfolding a_def using y by (rule fl_nonneg)
  have "\<bar>B' - B\<bar> \<le> 63 * u \<and> B' \<le> 21"
  proof (cases "y \<le> 40")
    case True
    have "\<bar>a - y\<bar> \<le> (40 + 1) / 2 ^ 53"
      unfolding a_def using y True by (intro fl_err_bound) simp
    then have ay: "\<bar>a - y\<bar> \<le> 41 * u" by (simp add: u_def)
    then have a41: "a \<le> 41" using True u by (simp add: abs_le_iff)
    have "\<bar>fl (20 - a) - (20 - a)\<bar> \<le> (21 + 1) / 2 ^ 53"
      using a0 a41 by (intro fl_err_bound) (simp add: abs_le_iff)
    then have f: "\<bar>fl (20 - a) - (20 - a)\<bar> \<le> 22 * u" by (simp add: u_def)
    have "\<bar>fl (20 - a) - (20 - y)\<bar> \<le> 63 * u"
      using f ay by (simp add: abs_le_iff)
    then have "\<bar>max 0 (fl (20 - a)) - max 0 (20 - y)\<bar> \<le> 63 * u"
      using u(1) by (simp add: abs_le_iff max_def)
    moreover from this have "max 0 (fl (20 - a)) \<le> 21"
      using y u by (simp add: abs_le_iff max_def split: if_splits)
    ultimately show ?thesis by (simp add: B_def B'_def a_def y_def)
  next
    case False
    then have "fl 40 \<le> a" unfolding a_def by (intro fl_mono) simp
    then have "40 \<le> a" by (simp add: fl_40)
    then have "fl (20 - a) \<le> fl (- 20)" by (intro fl_mono) simp
    then have "fl (20 - a) \<le> - 20" by (simp add: fl_m20)
    then have "max 0 (fl (20 - a)) = 0" by (simp add: max_def)
    moreover have "max 0 (20 - y) = 0" using False by (simp add: max_def)
    ultimately show ?thesis using u by (simp add: B_def B'_def a_def y_def)
  qed
  then show "\<bar>B' - B\<bar> \<le> 63 / 2 ^ 53" and "B' \<le> 21"
    by (simp_all add: u_def)
  show "0 \<le> B'" by (simp add: B'_def)
qed

lemma round_between:
  assumes "\<bar>s - w\<bar> \<le> d" "round (w - d) = round (w + d)"
  shows "Math_round s = round w"
proof -
  have d: "0 \<le> d" using assms(1) by linarith
  have "round (w - d) \<le> round s" "round s \<le> round (w + d)"
    using assms(1) by (intro round_mono; simp add: abs_le_iff)+
  moreover have "round (w - d) \<le> round w" "round w \<le> round (w + d)"
    using d by (intro round_mono; simp)+
  ultimately show ?thesis using assms(2) by (simp add: Math_round_def round_def)
qed

lemma quiz_score_formula:
  assumes "0 < t" "c \<le> t" "m \<noteq> Mode_timed"
    and "round (100 * of_nat c / of_nat t - 1 / 2 ^ 40 :: rat)
           = round (100 * of_nat c / of_nat t + 1 / 2 ^ 40 :: rat)"
  shows "calculateScore c t e m = Some (round (100 * of_nat c / of_nat t :: rat))"
proof -
  have "\<bar>fl (fl (of_nat c / of_nat t) * 100) - 100 * of_nat c / of_nat t\<bar> \<le> 403 / 2 ^ 53"
    using base_error [OF assms(1,2)] .
  also have "(403::rat) / 2 ^ 53 \<le> 1 / 2 ^ 40" by simp
  finally have "Math_round (fl (fl (of_nat c / of_nat t) * 100)) = round (100 * of_nat c / of_nat t :: rat)"
    using assms(4) by (rule round_between)
  then show ?thesis
    using assms(1,3) by (simp add: calculateScore_def js_divide_def Let_def)
qed

lemma timed_score_formula:
  assumes "0 < t" "c \<le> t" "0 \<le> e"
  defines "w \<equiv> 100 * of_nat c / of_nat t + max 0 (20 - e / of_nat t)"
  assumes "round (w - 1 / 2 ^ 40) = round (w + 1 / 2 ^ 40)"
  shows "calculateScore c t e Mode_timed = Some (round w)"
proof -
  define b where "b = fl (fl (of_nat c / of_nat t) * 100)"
  define B' where "B' = max 0 (fl (20 - fl (e / of_nat t)))"
  define v where "v = 100 * (of_nat c :: rat) / of_nat t"
  define B where "B = max 0 (20 - e / of_nat t)"
  define u where "u = (1::rat) / 2 ^ 53"
  have u: "0 < u" "u \<le> 1 / 1000" by (simp_all add: u_def)
  have bv: "\<bar>b - v\<bar> \<le> 403 * u"
    using base_error [OF assms(1,2)] by (simp add: b_def v_def u_def)
  have BB: "\<bar>B' - B\<bar> \<le> 63 * u" and B0: "0 \<le> B'" and B21: "B' \<le> 21"
    using bonus_error [OF assms(1,3)] by (simp_all add: B_def B'_def u_def)
  have "(of_nat c :: rat) / of_nat t \<le> 1"
    using assms(1,2) by simp
  then have "100 * ((of_nat c :: rat) / of_nat t) \<le> 100"
    by simp
  then have v: "0 \<le> v" "v \<le> 100"
    by (simp_all add: v_def)
  have "\<bar>b + B'\<bar> \<le> 122"
    using bv v B0 B21 u by (simp add: abs_le_iff)
  then have "\<bar>fl (b + B') - (b + B')\<bar> \<le> (122 + 1) / 2 ^ 53"
    by (rule fl_err_bound)
  then have s: "\<bar>fl (b + B') - (b + B')\<bar> \<le> 123 * u" by (simp add: u_def)
  have "\<bar>fl (b + B') - (v + B)\<bar> \<le> 589 * u"
    using s bv BB by (simp add: abs_le_iff)
  also have "589 * u \<le> 1 / 2 ^ 40" by (simp add: u_def)
  finally have "\<bar>fl (b + B') - w\<bar> \<le> 1 / 2 ^ 40"
    by (simp add: w_def v_def B_def)
  then have "Math_round (fl (b + B')) = round w"
    using assms(5) by (rule round_between)
  then show ?thesis
    using assms(1) by (simp add: calculateScore_def js_divide_def Let_def b_def B'_def)
qed

lemma quiz_examples:
  "calculateScore 8 10 e Mode_quiz = Some 80"
  "calculateScore 1 3 10 Mode_quiz = Some 33"
  "calculateScore 23 40 0 Mode_quiz = Some 57"
proof -
  have "Math_round (fl (fl (of_nat 8 / of_nat 10) * 100)) = 80" by code_simp
  then show "calculateScore 8 10 e Mode_quiz = Some 80"
    by (simp add: calculateScore_def js_divide_def Let_def)
  show "calculateScore 1 3 10 Mode_quiz = Some 33" by code_simp
  show "calculateScore 23 40 0 Mode_quiz = Some 57" by code_simp
qed

lemma round_stable:
  fixes N :: int and t :: nat
  defines "x \<equiv> (of_int N :: rat) / of_nat t"
  assumes "0 < t" "t < 2 ^ 39" "of_int (round x) \<noteq> x + 1/2"
  shows "round (x - 1 / 2 ^ 40) = round (x + 1 / 2 ^ 40)"
proof -
  define k where "k = \<lfloor>x + 1/2\<rfloor>"
  define T where "T = (of_nat t :: rat)"
  have T0: "0 < T"
    using assms(2) by (simp add: T_def)
  have "(of_nat t :: rat) < of_nat (2 ^ 39)"
    using assms(3) by (simp only: of_nat_less_iff)
  then have T1: "T < 2 ^ 39"
    by (simp add: T_def)
  have M: "(x + 1/2) * (2 * T) = of_int (2 * N + int t)"
    using T0 by (simp add: x_def T_def field_simps)
  have K: "(of_int (j * (2 * int t)) :: rat) = of_int j * (2 * T)" for j
    by (simp add: T_def)
  have "of_int k \<le> x + 1/2"
    unfolding k_def by (rule of_int_floor_le)
  moreover have "of_int k \<noteq> x + 1/2"
    using assms(4) by (simp add: k_def round_def)
  ultimately have "of_int k < x + 1/2"
    by simp
  then have "of_int k * (2 * T) < (x + 1/2) * (2 * T)"
    using T0 by simp
  then have "(of_int (k * (2 * int t)) :: rat) < of_int (2 * N + int t)"
    by (simp only: K M)
  then have "k * (2 * int t) < 2 * N + int t"
    by (simp only: of_int_less_iff)
  then have "k * (2 * int t) + 1 \<le> 2 * N + int t"
    by simp
  then have "(of_int (k * (2 * int t) + 1) :: rat) \<le> of_int (2 * N + int t)"
    by (simp only: of_int_le_iff)
  then have "(of_int (k * (2 * int t)) :: rat) + 1 \<le> of_int (2 * N + int t)"
    by (simp only: of_int_add of_int_1)
  then have "of_int k * (2 * T) + 1 \<le> (x + 1/2) * (2 * T)"
    by (simp only: K M)
  then have lo: "of_int k + 1 / (2 * T) \<le> x + 1/2"
    using T0 by (simp add: field_simps)
  have "x + 1/2 < of_int k + 1"
    unfolding k_def by linarith
  then have "(x + 1/2) * (2 * T) < (of_int k + 1) * (2 * T)"
    using T0 by simp
  then have "(of_int (2 * N + int t) :: rat) < of_int ((k + 1) * (2 * int t))"
    by (simp only: K M of_int_add of_int_1)
  then have "2 * N + int t < (k + 1) * (2 * int t)"
    by (simp only: of_int_less_iff)
  then have "2 * N + int t + 1 \<le> (k + 1) * (2 * int t)"
    by simp
  then have "(of_int (2 * N + int t + 1) :: rat) \<le> of_int ((k + 1) * (2 * int t))"
    by (simp only: of_int_le_iff)
  then have "(of_int (2 * N + int t) :: rat) + 1 \<le> of_int ((k + 1) * (2 * int t))"
    by (simp only: of_int_add of_int_1)
  then have "(x + 1/2) * (2 * T) + 1 \<le> (of_int k + 1) * (2 * T)"
    by (simp only: K M of_int_add of_int_1)
  then have hi: "x + 1/2 + 1 / (2 * T) \<le> of_int k + 1"
    using T0 by (simp add: field_simps)
  have "2 * T < 2 ^ 40" using T1 by simp
  then have d: "(1::rat) / 2 ^ 40 < 1 / (2 * T)"
    using T0 by (intro divide_strict_left_mono) simp_all
  define dl where "dl = (1::rat) / 2 ^ 40"
  define dt where "dt = 1 / (2 * T)"
  have lo': "of_int k + dt \<le> x + 1/2" and hi': "x + 1/2 + dt \<le> of_int k + 1" and d': "dl < dt"
    and dl0: "0 < dl"
    using lo hi d by (simp_all add: dl_def dt_def)
  have "\<lfloor>x - dl + 1/2\<rfloor> = k"
    using lo' hi' d' dl0 by (intro floor_unique) linarith+
  moreover have "\<lfloor>x + dl + 1/2\<rfloor> = k"
    using lo' hi' d' dl0 by (intro floor_unique) linarith+
  ultimately show ?thesis by (simp add: round_def dl_def)
qed

lemma quiz_score_exact:
  assumes "0 < t" "t < 2 ^ 39" "c \<le> t" "m \<noteq> Mode_timed"
    and "of_int (round (100 * of_nat c / of_nat t :: rat)) \<noteq> (100 * of_nat c / of_nat t + 1/2 :: rat)"
  shows "calculateScore c t e m = Some (round (100 * of_nat c / of_nat t :: rat))"
proof -
  define x where "x = (of_int (100 * int c) :: rat) / of_nat t"
  have e: "(100 * of_nat c / of_nat t :: rat) = x"
    by (simp add: x_def)
  have "of_int (round x) \<noteq> x + 1/2"
    using assms(5) unfolding e .
  then have "round (x - 1 / 2 ^ 40) = round (x + 1 / 2 ^ 40)"
    unfolding x_def using assms(1,2) by (intro round_stable)
  then have "calculateScore c t e m = Some (round x)"
    by (rule quiz_score_formula [OF assms(1,3,4), unfolded e])
  then show ?thesis unfolding e .
qed

lemma bonus_whole_seconds:
  fixes secs t :: nat
  assumes "0 < t"
  shows "max 0 (20 - of_nat secs / of_nat t :: rat)
           = of_int (max 0 (20 * int t - int secs)) / of_nat t"
proof (cases "secs \<le> 20 * t")
  case True
  then have "(of_nat secs :: rat) \<le> of_nat (20 * t)"
    by (simp only: of_nat_le_iff)
  then have "(of_nat secs :: rat) \<le> 20 * of_nat t"
    by simp
  then have 1: "(of_nat secs :: rat) / of_nat t \<le> 20"
    using assms by (simp add: pos_divide_le_eq)
  have 2: "max 0 (20 * int t - int secs) = 20 * int t - int secs"
    using True by simp
  have "(of_int (20 * int t - int secs) :: rat) / of_nat t = 20 - of_nat secs / of_nat t"
    using assms by (simp add: diff_divide_distrib)
  then show ?thesis
    using 1 unfolding 2 by (simp add: max_def)
next
  case False
  then have "20 * t < secs" by simp
  then have "(of_nat (20 * t) :: rat) < of_nat secs"
    by (simp only: of_nat_less_iff)
  then have "20 * (of_nat t :: rat) < of_nat secs"
    by simp
  then have 1: "20 < (of_nat secs :: rat) / of_nat t"
    using assms by (simp add: pos_less_divide_eq)
  have 2: "max 0 (20 * int t - int secs) = 0"
    using False by simp
  show ?thesis
    using 1 unfolding 2 by (simp add: max_def)
qed


lemma timed_score_exact:
  fixes secs :: nat
  assumes "0 < t" "t < 2 ^ 39" "c \<le> t"
  defines "w \<equiv> 100 * of_nat c / of_nat t + max 0 (20 - of_nat secs / of_nat t :: rat)"
  assumes "of_int (round w) \<noteq> w + 1/2"
  shows "calculateScore c t (of_nat secs) Mode_timed = Some (round w)"
proof -
  define x where "x = (of_int (100 * int c + max 0 (20 * int t - int secs)) :: rat) / of_nat t"
  have "(100 * of_nat c / of_nat t :: rat) = of_int (100 * int c) / of_nat t"
    by simp
  then have e: "w = x"
    unfolding w_def x_def bonus_whole_seconds [OF assms(1)]
    by (simp only: of_int_add add_divide_distrib)
  have "of_int (round x) \<noteq> x + 1/2"
    using assms(5) unfolding e .
  then have "round (x - 1 / 2 ^ 40) = round (x + 1 / 2 ^ 40)"
    unfolding x_def using assms(1,2) by (intro round_stable)
  then have "round (w - 1 / 2 ^ 40) = round (w + 1 / 2 ^ 40)"
    unfolding e .
  then show ?thesis
    unfolding w_def by (intro timed_score_formula assms(1,3)) simp_all
qed

lemma score_far_from_midpoint:
  assumes "0 < t" "c \<le> t" "m = Mode_timed \<longrightarrow> 0 \<le> e"
    and "round (exact_score c t e m - 1 / 2 ^ 40) = round (exact_score c t e m + 1 / 2 ^ 40)"
  shows "calculateScore c t e m = Some (round (exact_score c t e m))"
proof (cases "m = Mode_timed")
  case True
  with assms show ?thesis
    using timed_score_formula [of t c e] by (simp add: exact_score_def)
next
  case False
  with assms show ?thesis
    using quiz_score_formula [of t c m e] by (simp add: exact_score_def)
qed

lemma score_not_midpoint:
  assumes "0 < t" "t < 2 ^ 39" "c \<le> t" "m = Mode_timed \<longrightarrow> 0 \<le> e \<and> of_int \<lfloor>e\<rfloor> = e"
    and "of_int (round (exact_score c t e m)) \<noteq> exact_score c t e m + 1/2"
  shows "calculateScore c t e m = Some (round (exact_score c t e m))"
proof (cases "m = Mode_timed")
  case True
  with assms(4) have "0 \<le> \<lfloor>e\<rfloor>" "of_int \<lfloor>e\<rfloor> = e" by simp_all
  then have e: "e = of_nat (nat \<lfloor>e\<rfloor>)"
    by (metis of_int_of_nat_eq nat_0_le)
  show ?thesis
    using True assms(1,2,3,5) timed_score_exact [of t c "nat \<lfloor>e\<rfloor>"]
    unfolding exact_score_def by (subst (1 2) e) (simp add: e [symmetric])
next
  case False
  with assms show ?thesis
    using quiz_score_exact [of t c m e] by (simp add: exact_score_def)
qed

lemma midpoint_examples:
  "calculateScore 1 8 0 Mode_quiz = Some 13"
  "round (exact_score 1 8 0 Mode_quiz) = 13"
  "round (exact_score 23 40 0 Mode_quiz) = 58"
  by code_simp+

text \<open>
  Claim C1. For every correctAnswers c, totalQuestions t > 0, elapsed time e and mode,
  calculateScore(c, t, e, mode) equals round(100 * c / t) for the non-timed modes and
  round(100 * c / t + max(0, 20 - e / t)) for the timed mode, rounding to the nearest
  integer with midpoints rounding up. The code rounds midpoints up where its arithmetic
  is exact (1 of 8 is 12.5 and scores 13), and it agrees with the formula away from the
  midpoints (\<open>score_far_from_midpoint\<close>, \<open>score_not_midpoint\<close>). But it computes
  \<open>(c / t) * 100\<close>, not \<open>100 * c / t\<close>: 23 / 40 is rounded to the number just below
  0.575, its product with 100 to 57.49999999999999, and \<open>Math.round\<close> gives 57, while
  100 * 23 / 40 is the midpoint 57.5, which rounds up to 58.
\<close>

theorem calculateScore_midpoint_falls_below:
  "exact_score 23 40 0 Mode_quiz = 115 / 2
   \<and> round (exact_score 23 40 0 Mode_quiz) = 58
   \<and> calculateScore 23 40 0 Mode_quiz = Some 57
   \<and> calculateScore 23 40 0 Mode_quiz \<noteq> Some (round (exact_score 23 40 0 Mode_quiz))
   \<and> calculateScore 1 8 0 Mode_quiz = Some (round (exact_score 1 8 0 Mode_quiz))"
proof (intro conjI)
  show "exact_score 23 40 0 Mode_quiz = 115 / 2"
    by (simp add: exact_score_def)
  show "round (exact_score 23 40 0 Mode_quiz) = 58"
    by (rule midpoint_examples)
  show "calculateScore 23 40 0 Mode_quiz = Some 57"
    by (rule quiz_examples)
  show "calculateScore 23 40 0 Mode_quiz \<noteq> Some (round (exact_score 23 40 0 Mode_quiz))"
    by (simp only: quiz_examples(3) midpoint_examples(3)) simp
  show "calculateScore 1 8 0 Mode_quiz = Some (round (exact_score 1 8 0 Mode_quiz))"
    by (simp only: midpoint_examples(1,2))
qed

subsection \<open>calculateScore: the timed score against the elapsed time\<close>

lemma Math_round_mono: "x \<le> y \<Longrightarrow> Math_round x \<le> Math_round y"
  by (simp add: Math_round_def floor_mono)

lemma timed_score_antimono:
  assumes "0 < t" "e1 \<le> e2"
  shows "\<exists>s1 s2. calculateScore c t e1 Mode_timed = Some s1
           \<and> calculateScore c t e2 Mode_timed = Some s2 \<and> s2 \<le> s1"
proof -
  define n where "n = (of_nat t :: rat)"
  have n: "0 < n" using assms(1) by (simp add: n_def)
  define base where "base = fl (fl (of_nat c / n) * 100)"
  define bonus where "bonus e = max 0 (fl (20 - fl (e / n)))" for e
  have cs: "calculateScore c t e Mode_timed = Some (Math_round (fl (base + bonus e)))" for e
    using n by (simp add: calculateScore_def js_divide_def Let_def base_def bonus_def n_def)
  have "e1 / n \<le> e2 / n"
    using assms(2) n by (simp add: divide_right_mono)
  then have "fl (e1 / n) \<le> fl (e2 / n)" by (rule fl_mono)
  then have "20 - fl (e2 / n) \<le> 20 - fl (e1 / n)" by simp
  then have "fl (20 - fl (e2 / n)) \<le> fl (20 - fl (e1 / n))" by (rule fl_mono)
  then have "bonus e2 \<le> bonus e1" by (simp add: bonus_def max_def)
  then have "base + bonus e2 \<le> base + bonus e1" by simp
  then have "fl (base + bonus e2) \<le> fl (base + bonus e1)" by (rule fl_mono)
  then have "Math_round (fl (base + bonus e2)) \<le> Math_round (fl (base + bonus e1))"
    by (rule Math_round_mono)
  then show ?thesis by (simp add: cs)
qed

lemma timed_score_example: "calculateScore 10 10 50 Mode_timed = Some 115"
  by code_simp

text \<open>
  Claim C8. For fixed correctAnswers and totalQuestions > 0, the timed-mode score returned
  by calculateScore is monotonically non-increasing in the elapsed time: for all
  \<open>e1 \<le> e2\<close>, the score at \<open>e1\<close> is at least the score at \<open>e2\<close>; and
  \<open>calculateScore(10, 10, 50, 'timed') > 100\<close>. Every operation of the computation is
  monotone, the roundings included.
\<close>

theorem calculateScore_timed_nonincreasing:
  "(0 < t \<and> e1 \<le> e2 \<longrightarrow>
      (\<exists>s1 s2. calculateScore n t e1 Mode_timed = Some s1
         \<and> calculateScore n t e2 Mode_timed = Some s2 \<and> s2 \<le> s1))
   \<and> (\<exists>s. calculateScore 10 10 50 Mode_timed = Some s \<and> 100 < s)"
  using timed_score_antimono [of t e1 e2 n] timed_score_example by simp

theorem calculateScore_timed_nonincreasing_witness:
  "(0::nat) < 10 \<and> (30::rat) \<le> 100
   \<and> calculateScore 10 10 30 Mode_timed = Some 117
   \<and> calculateScore 10 10 100 Mode_timed = Some 110"
proof -
  have "calculateScore 10 10 30 Mode_timed = Some 117" by code_simp
  moreover have "calculateScore 10 10 100 Mode_timed = Some 110" by code_simp
  ultimately show ?thesis
    using calculateScore_timed_nonincreasing [of 10 30 100 10] by simp
qed

subsection \<open>The mastery classification\<close>

lemma fl_below_0_8: "fl (4/5 - 1 / (5 * 2 ^ 53)) < fl (4/5)"
  by code_simp

lemma accuracy_ge_iff:
  assumes "0 < a" "a < 2 ^ 53"
  shows "fl (of_nat c / of_nat a) \<ge> fl (4/5) \<longleftrightarrow> (of_nat c / of_nat a :: rat) \<ge> 4/5"
proof
  assume "(of_nat c / of_nat a :: rat) \<ge> 4/5"
  then show "fl (of_nat c / of_nat a) \<ge> fl (4/5)" by (rule fl_mono)
next
  assume ge: "fl (of_nat c / of_nat a) \<ge> fl (4/5)"
  show "(of_nat c / of_nat a :: rat) \<ge> 4/5"
  proof (rule ccontr)
    assume "\<not> ?thesis"
    then have "(of_nat c / of_nat a :: rat) < 4/5" by simp
    then have "(of_nat (5 * c) :: rat) < of_nat (4 * a)"
      using assms(1) by (simp add: field_simps)
    then have "5 * c < 4 * a" by (simp only: of_nat_less_iff)
    then have "5 * c + 1 \<le> 4 * a" by simp
    then have "(of_nat (5 * c + 1) :: rat) \<le> of_nat (4 * a)" by (simp only: of_nat_le_iff)
    then have 1: "(of_nat c :: rat) / of_nat a \<le> 4/5 - 1 / (5 * of_nat a)"
      using assms(1) by (simp add: field_simps)
    have "(of_nat a :: rat) \<le> of_nat (2 ^ 53)"
      using assms(2) by (simp only: of_nat_le_iff)
    then have "(of_nat a :: rat) \<le> 2 ^ 53" by simp
    then have "1 / (5 * 2 ^ 53) \<le> 1 / (5 * (of_nat a :: rat))"
      using assms(1) by (intro divide_left_mono) simp_all
    with 1 have "(of_nat c :: rat) / of_nat a \<le> 4/5 - 1 / (5 * 2 ^ 53)" by linarith
    then have "fl (of_nat c / of_nat a) \<le> fl (4/5 - 1 / (5 * 2 ^ 53))" by (rule fl_mono)
    with fl_below_0_8 ge show False by linarith
  qed
qed

lemma calculateMastery_eq_rule:
  assumes "attempts p < 2 ^ 53"
  shows "calculateMastery p = mastery_rule_spec (attempts p) (correctCount p)"
proof (cases "attempts p < 3")
  case True
  then show ?thesis by (simp add: calculateMastery_def mastery_rule_spec_def)
next
  case False
  then have "0 < attempts p" by simp
  from accuracy_ge_iff [OF this assms, of "correctCount p"] False show ?thesis
    by (auto simp: calculateMastery_def mastery_rule_spec_def Let_def not_less)
qed

text \<open>
  Claim C2. The mastery classification is a function of (attempts, correctCount) alone:
  attempts < 3 gives new; attempts \<ge> 3 with attempts < 5 or correctCount/attempts < 0.8
  gives learning; attempts \<ge> 5 with correctCount/attempts \<ge> 0.8 gives mastered
  (\<open>mastery_rule_spec\<close>, with the exact quotient). In particular attempts = 2 gives new
  whatever the counts, (5, 4) gives mastered, (4, 4) learning and (5, 3) learning.
  The counters are numbers that count, so they are below \<open>2 ^ 53\<close>; there the rounded
  quotient that the code compares with the number 0.8 is at least 0.8 exactly when the
  exact quotient is at least 4/5.
\<close>

theorem calculateMastery_rule:
  "(attempts p < 2 ^ 53 \<longrightarrow>
      calculateMastery p = mastery_rule_spec (attempts p) (correctCount p))
   \<and> calculateMastery (p\<lparr>attempts := 2\<rparr>) = Mastery_new
   \<and> calculateMastery (p\<lparr>attempts := 5, correctCount := 4\<rparr>) = Mastery_mastered
   \<and> calculateMastery (p\<lparr>attempts := 4, correctCount := 4\<rparr>) = Mastery_learning
   \<and> calculateMastery (p\<lparr>attempts := 5, correctCount := 3\<rparr>) = Mastery_learning"
proof -
  have 2: "calculateMastery (p\<lparr>attempts := 2\<rparr>) = Mastery_new"
    by (simp add: calculateMastery_def)
  have 3: "calculateMastery (p\<lparr>attempts := 5, correctCount := 4\<rparr>) = Mastery_mastered"
    by (subst calculateMastery_eq_rule) (simp_all add: mastery_rule_spec_def)
  have 4: "calculateMastery (p\<lparr>attempts := 4, correctCount := 4\<rparr>) = Mastery_learning"
    by (subst calculateMastery_eq_rule) (simp_all add: mastery_rule_spec_def)
  have 5: "calculateMastery (p\<lparr>attempts := 5, correctCount := 3\<rparr>) = Mastery_learning"
    by (subst calculateMastery_eq_rule) (simp_all add: mastery_rule_spec_def)
  from calculateMastery_eq_rule [of p] 2 3 4 5 show ?thesis by blast
qed

theorem calculateMastery_rule_witness:
  "attempts (mock_progress 10 8) < 2 ^ 53
   \<and> calculateMastery (mock_progress 10 8) = Mastery_mastered
   \<and> mastery_rule_spec 10 8 = Mastery_mastered"
proof -
  have "attempts (mock_progress 10 8) < 2 ^ 53"
    by (simp add: mock_progress_def mock_progress_of_def)
  moreover have "mastery_rule_spec 10 8 = Mastery_mastered"
    by (simp add: mastery_rule_spec_def)
  ultimately show ?thesis
    using calculateMastery_rule [of "mock_progress 10 8"] by (simp add: mock_progress_def mock_progress_of_def)
qed

subsection \<open>The invariant of a progress record\<close>

lemma invariant_create: "progress_invariant (createProgress now q)"
  by (simp add: progress_invariant_def createProgress_def mastery_rule_spec_def)

lemma invariant_reset: "progress_invariant (resetProgress now p)"
  by (simp add: resetProgress_def invariant_create)

lemma attempts_update: "attempts (updateProgress now p b) = attempts p + 1"
  by (simp add: updateProgress_def Let_def)

lemma mastery_update:
  assumes "attempts p + 1 < 2 ^ 53"
  shows "mastery (updateProgress now p b)
           = mastery_rule_spec (attempts (updateProgress now p b))
               (correctCount (updateProgress now p b))"
proof -
  define newProgress where "newProgress = p
      \<lparr>attempts := attempts p + 1,
       correctCount := correctCount p + (if b then 1 else 0),
       incorrectCount := incorrectCount p + (if b then 0 else 1),
       lastAttempted := now,
       mastery := mastery p\<rparr>"
  have u: "updateProgress now p b = newProgress\<lparr>mastery := calculateMastery newProgress\<rparr>"
    by (simp add: updateProgress_def Let_def newProgress_def)
  have "attempts newProgress < 2 ^ 53"
    using assms by (simp add: newProgress_def)
  then have "calculateMastery newProgress
               = mastery_rule_spec (attempts newProgress) (correctCount newProgress)"
    by (rule calculateMastery_eq_rule)
  then show ?thesis
    by (simp add: u)
qed

lemma invariant_update:
  assumes "attempts p + 1 < 2 ^ 53" "progress_invariant p"
  shows "progress_invariant (updateProgress now p b)"
proof -
  have "attempts (updateProgress now p b)
          = correctCount (updateProgress now p b) + incorrectCount (updateProgress now p b)"
    using assms(2) by (simp add: progress_invariant_def updateProgress_def Let_def)
  with mastery_update [OF assms(1), of now b] show ?thesis
    by (simp only: progress_invariant_def)
qed

lemma attempts_apply_op: "attempts (apply_op p x) \<le> attempts p + 1"
  by (cases x) (simp_all add: attempts_update resetProgress_def createProgress_def)

lemma invariant_apply_op:
  "attempts p + 1 < 2 ^ 53 \<Longrightarrow> progress_invariant p \<Longrightarrow> progress_invariant (apply_op p x)"
  by (cases x) (simp_all add: invariant_update invariant_reset)

lemma invariant_foldl:
  "attempts p + length ops < 2 ^ 53 \<Longrightarrow> progress_invariant p
     \<Longrightarrow> progress_invariant (foldl apply_op p ops)"
proof (induction ops arbitrary: p)
  case Nil
  then show ?case by simp
next
  case (Cons x ops)
  have 1: "attempts p + 1 < 2 ^ 53"
    using Cons.prems(1) by simp
  have "attempts (apply_op p x) + length ops \<le> attempts p + 1 + length ops"
    using attempts_apply_op [of p x] by simp
  also have "\<dots> < 2 ^ 53"
    using Cons.prems(1) by simp
  finally have 2: "attempts (apply_op p x) + length ops < 2 ^ 53" .
  have "progress_invariant (apply_op p x)"
    using 1 Cons.prems(2) by (rule invariant_apply_op)
  with 2 have "progress_invariant (foldl apply_op (apply_op p x) ops)"
    by (rule Cons.IH)
  then show ?case by simp
qed

lemma invariant_run_ops:
  assumes "length ops < 2 ^ 53"
  shows "progress_invariant (run_ops now q ops)"
  unfolding run_ops_def
proof (rule invariant_foldl)
  show "attempts (createProgress now q) + length ops < 2 ^ 53"
    using assms by (simp add: createProgress_def)
  show "progress_invariant (createProgress now q)"
    by (rule invariant_create)
qed

text \<open>
  Claim C4. Every UserProgress record produced by createProgress, updateProgress or
  resetProgress satisfies \<open>attempts = correctCount + incorrectCount\<close>, and its stored
  mastery is what the classification rule of the specification (\<open>mastery_rule_spec\<close>,
  with the exact quotient) gives for its (attempts, correctCount); these invariants
  (\<open>progress_invariant\<close>) are preserved by every sequence of these operations that starts
  from createProgress (\<open>run_ops\<close>). The counters are numbers that count, so they stay
  below \<open>2 ^ 53\<close>: a sequence of fewer than \<open>2 ^ 53\<close> operations. The record that
  updateProgress returns stores the rule's classification of its own counts whatever
  record it is given, and its counts add up when those of the given record do.
\<close>

theorem progress_invariant_preserved:
  "progress_invariant (createProgress now q)
   \<and> progress_invariant (resetProgress now p)
   \<and> (attempts p + 1 < 2 ^ 53 \<longrightarrow>
        mastery (updateProgress now p isCorrect)
          = mastery_rule_spec (attempts (updateProgress now p isCorrect))
              (correctCount (updateProgress now p isCorrect)))
   \<and> (attempts p + 1 < 2 ^ 53 \<and> progress_invariant p \<longrightarrow>
        progress_invariant (updateProgress now p isCorrect))
   \<and> (length ops < 2 ^ 53 \<longrightarrow> progress_invariant (run_ops now q ops))"
  using invariant_create [of now q] invariant_reset [of now p]
    mastery_update [of p now isCorrect] invariant_update [of p now isCorrect]
    invariant_run_ops [of ops now q]
  by blast

theorem progress_invariant_preserved_witness:
  "attempts (mock_progress 5 4) + 1 < 2 ^ 53
   \<and> progress_invariant (mock_progress 5 4)
   \<and> length [Op_update 8 True, Op_update 9 True, Op_update 10 True, Op_update 11 True,
        Op_update 12 True] < 2 ^ 53
   \<and> progress_invariant (updateProgress 7 (mock_progress 5 4) False)
   \<and> attempts (updateProgress 7 (mock_progress 5 4) False) = 6
   \<and> correctCount (updateProgress 7 (mock_progress 5 4) False) = 4
   \<and> mastery (updateProgress 7 (mock_progress 5 4) False) = Mastery_learning
   \<and> attempts (run_ops 7 ''q1'' [Op_update 8 True, Op_update 9 True, Op_update 10 True,
        Op_update 11 True, Op_update 12 True]) = 5
   \<and> correctCount (run_ops 7 ''q1'' [Op_update 8 True, Op_update 9 True, Op_update 10 True,
        Op_update 11 True, Op_update 12 True]) = 5
   \<and> mastery (run_ops 7 ''q1'' [Op_update 8 True, Op_update 9 True, Op_update 10 True,
        Op_update 11 True, Op_update 12 True]) = Mastery_mastered"
proof -
  let ?ops = "[Op_update 8 True, Op_update 9 True, Op_update 10 True, Op_update 11 True,
        Op_update 12 True]"
  have a: "attempts (mock_progress 5 4) + 1 < 2 ^ 53"
    by (simp add: mock_progress_def mock_progress_of_def)
  have i: "progress_invariant (mock_progress 5 4)"
    by (simp add: progress_invariant_def mock_progress_def mock_progress_of_def
        mastery_rule_spec_def)
  have l: "length ?ops < 2 ^ 53"
    by simp
  have u: "attempts (updateProgress 7 (mock_progress 5 4) False) = 6"
    "correctCount (updateProgress 7 (mock_progress 5 4) False) = 4"
    by (simp_all add: updateProgress_def mock_progress_def mock_progress_of_def Let_def)
  have r: "attempts (run_ops 7 ''q1'' ?ops) = 5" "correctCount (run_ops 7 ''q1'' ?ops) = 5"
    by (simp_all add: run_ops_def updateProgress_def createProgress_def Let_def)
  have m: "mastery_rule_spec 6 4 = Mastery_learning" "mastery_rule_spec 5 5 = Mastery_mastered"
    by (simp_all add: mastery_rule_spec_def)
  show ?thesis
    using progress_invariant_preserved [of 7 "''q1''" "mock_progress 5 4" False ?ops]
      a i l u r m
    by (simp add: progress_invariant_def)
qed

subsection \<open>The update operations leave their argument unchanged\<close>

lemma updateSession_store_frame:
  assumes "session < length h"
  shows "case updateSession_store h session isCorrect timeTaken of
           (h', r) \<Rightarrow> h' ! session = h ! session \<and> r \<noteq> session \<and> take (length h) h' = h
              \<and> length h' = length h + 1
              \<and> h' ! r = updateSession (h ! session) isCorrect timeTaken"
  using assms
  by (simp add: updateSession_store_def alloc_def Let_def nth_append updateSession_def)

lemma updateProgress_store_frame:
  assumes "progress < length h"
  shows "case updateProgress_store now h progress isCorrect of
           (h', r) \<Rightarrow> h' ! progress = h ! progress \<and> r \<noteq> progress \<and> take (length h) h' = h
              \<and> length h' = length h + 1
              \<and> h' ! r = updateProgress now (h ! progress) isCorrect"
  using assms
  by (simp add: updateProgress_store_def alloc_def Let_def nth_append updateProgress_def)


text \<open>
  Claim C6. For every session, progress record, correctness flag and elapsed time,
  updateSession and updateProgress return new values and leave their arguments unchanged:
  the object behind the argument's reference (and every other object that existed before
  the call) is the same after the call, the result is a reference to a new object, and
  that object holds the updated value.
\<close>

theorem update_leaves_argument_unchanged:
  "(session < length hs \<longrightarrow>
      (case updateSession_store hs session isCorrect timeTaken of
         (hs', r) \<Rightarrow> hs' ! session = hs ! session \<and> r \<noteq> session \<and> take (length hs) hs' = hs
            \<and> length hs' = length hs + 1
            \<and> hs' ! r = updateSession (hs ! session) isCorrect timeTaken))
   \<and> (progress < length hp \<longrightarrow>
      (case updateProgress_store now hp progress isCorrect of
         (hp', r) \<Rightarrow> hp' ! progress = hp ! progress \<and> r \<noteq> progress \<and> take (length hp) hp' = hp
            \<and> length hp' = length hp + 1
            \<and> hp' ! r = updateProgress now (hp ! progress) isCorrect))"
  using updateSession_store_frame [of session hs isCorrect timeTaken]
    updateProgress_store_frame [of progress hp now isCorrect]
  by blast

theorem update_leaves_argument_unchanged_witness:
  "(0::nat) < length [createSession 7 Mode_quiz]
   \<and> (0::nat) < length [mock_progress 5 4]
   \<and> fst (updateSession_store [createSession 7 Mode_quiz] 0 True 5) ! 0 = createSession 7 Mode_quiz
   \<and> snd (updateSession_store [createSession 7 Mode_quiz] 0 True 5) = 1
   \<and> fst (updateProgress_store 9 [mock_progress 5 4] 0 False) ! 0 = mock_progress 5 4
   \<and> snd (updateProgress_store 9 [mock_progress 5 4] 0 False) = 1"
  using update_leaves_argument_unchanged
    [of 0 "[createSession 7 Mode_quiz]" True 5 0 "[mock_progress 5 4]" 9]
  by (simp add: updateSession_store_def updateProgress_store_def alloc_def Let_def
      split: prod.splits)

subsection \<open>calculateStats\<close>

lemma find_snoc:
  "find P (xs @ [x]) = (case find P xs of Some y \<Rightarrow> Some y | None \<Rightarrow> if P x then Some x else None)"
  by (induction xs) simp_all

lemma fold_upd_find:
  "fold (\<lambda>p m. m(questionId p \<mapsto> p)) ps m k =
     (case find (\<lambda>p. questionId p = k) (rev ps) of Some p \<Rightarrow> Some p | None \<Rightarrow> m k)"
  by (induction ps arbitrary: m) (auto simp: find_snoc split: option.splits)

lemma progressMap_of_find:
  "progressMap_of ps k = find (\<lambda>p. questionId p = k) (rev ps)"
  by (simp add: progressMap_of_def fold_upd_find split: option.splits)

lemma step_newCount:
  "newCount (stats_step pm q s) = newCount s + (if counts_as pm Mastery_new q then 1 else 0)"
  by (simp add: stats_step_def counts_as_def Let_def split: option.splits MasteryLevel.splits)

lemma step_learningCount:
  "learningCount (stats_step pm q s) = learningCount s + (if counts_as pm Mastery_learning q then 1 else 0)"
  by (simp add: stats_step_def counts_as_def Let_def split: option.splits MasteryLevel.splits)

lemma step_masteredCount:
  "masteredCount (stats_step pm q s) = masteredCount s + (if counts_as pm Mastery_mastered q then 1 else 0)"
  by (simp add: stats_step_def counts_as_def Let_def split: option.splits MasteryLevel.splits)

lemma step_totalCorrect:
  "totalCorrect (stats_step pm q s) = totalCorrect s + correct_of pm q"
  by (simp add: stats_step_def correct_of_def Let_def split: option.splits MasteryLevel.splits)

lemma step_totalAttempts:
  "totalAttempts (stats_step pm q s) = totalAttempts s + attempts_of pm q"
  by (simp add: stats_step_def attempts_of_def Let_def split: option.splits MasteryLevel.splits)

lemma step_breakdown:
  "map_of (breakdown (stats_step pm q s)) t =
     (if in_topic pm t q
      then Some \<lparr>correct = (case map_of (breakdown s) t of Some cur \<Rightarrow> correct cur | None \<Rightarrow> 0)
                    + correct_of pm q,
                 total_t = (case map_of (breakdown s) t of Some cur \<Rightarrow> total_t cur | None \<Rightarrow> 0)
                    + attempts_of pm q\<rparr>
      else map_of (breakdown s) t)"
proof (cases "pm (id_q q)")
  case None
  then show ?thesis by (simp add: stats_step_def in_topic_def)
next
  case (Some p)
  show ?thesis
  proof (cases "topic q")
    case None
    with Some show ?thesis
      by (cases "mastery p") (simp_all add: stats_step_def in_topic_def Let_def)
  next
    case (Some t')
    show ?thesis
    proof (cases "t' = []")
      case True
      with Some \<open>pm (id_q q) = Some p\<close> show ?thesis
        by (cases "mastery p") (auto simp: stats_step_def in_topic_def Let_def)
    next
      case False
      with Some \<open>pm (id_q q) = Some p\<close> show ?thesis
        by (cases "mastery p"; cases "map_of (breakdown s) t'")
           (simp_all add: stats_step_def in_topic_def correct_of_def attempts_of_def Let_def
              update_conv')
    qed
  qed
qed

lemma fold_newCount:
  "newCount (fold (stats_step pm) qs s) = newCount s + length (filter (counts_as pm Mastery_new) qs)"
  by (induction qs arbitrary: s) (simp_all add: step_newCount)

lemma fold_learningCount:
  "learningCount (fold (stats_step pm) qs s)
     = learningCount s + length (filter (counts_as pm Mastery_learning) qs)"
  by (induction qs arbitrary: s) (simp_all add: step_learningCount)

lemma fold_masteredCount:
  "masteredCount (fold (stats_step pm) qs s)
     = masteredCount s + length (filter (counts_as pm Mastery_mastered) qs)"
  by (induction qs arbitrary: s) (simp_all add: step_masteredCount)

lemma fold_totalCorrect:
  "totalCorrect (fold (stats_step pm) qs s) = totalCorrect s + sum_list (map (correct_of pm) qs)"
  by (induction qs arbitrary: s) (simp_all add: step_totalCorrect)

lemma fold_totalAttempts:
  "totalAttempts (fold (stats_step pm) qs s) = totalAttempts s + sum_list (map (attempts_of pm) qs)"
  by (induction qs arbitrary: s) (simp_all add: step_totalAttempts)

lemma fold_breakdown:
  "map_of (breakdown (fold (stats_step pm) qs s)) t =
     (if filter (in_topic pm t) qs = [] then map_of (breakdown s) t
      else Some \<lparr>correct = (case map_of (breakdown s) t of Some cur \<Rightarrow> correct cur | None \<Rightarrow> 0)
                    + sum_list (map (correct_of pm) (filter (in_topic pm t) qs)),
                 total_t = (case map_of (breakdown s) t of Some cur \<Rightarrow> total_t cur | None \<Rightarrow> 0)
                    + sum_list (map (attempts_of pm) (filter (in_topic pm t) qs))\<rparr>)"
  by (induction qs arbitrary: s) (simp_all add: step_breakdown)


lemma calculateStats_fields:
  fixes progressList allQuestions
  defines "pm \<equiv> progressMap_of progressList"
    and "stats \<equiv> calculateStats progressList allQuestions"
  shows "totalQuestions stats = length allQuestions"
    and "newQuestions stats = length (filter (counts_as pm Mastery_new) allQuestions)"
    and "learningQuestions stats = length (filter (counts_as pm Mastery_learning) allQuestions)"
    and "masteredQuestions stats = length (filter (counts_as pm Mastery_mastered) allQuestions)"
    and "overallAccuracy stats =
           (if 0 < sum_list (map (attempts_of pm) allQuestions)
            then fl (of_nat (sum_list (map (correct_of pm) allQuestions))
                      / of_nat (sum_list (map (attempts_of pm) allQuestions)))
            else 0)"
    and "map_of (topicBreakdown stats) t =
           (if filter (in_topic pm t) allQuestions = [] then None
            else Some \<lparr>correct = sum_list (map (correct_of pm) (filter (in_topic pm t) allQuestions)),
                       total_t = sum_list (map (attempts_of pm) (filter (in_topic pm t) allQuestions))\<rparr>)"
  unfolding pm_def stats_def
  by (simp_all add: calculateStats_def Let_def fold_newCount fold_learningCount
      fold_masteredCount fold_totalCorrect fold_totalAttempts fold_breakdown
      del: sum_list_eq_0_iff)

lemma wind_example:
  "map_of (topicBreakdown
      (calculateStats [mock_progress_of ''q1'' 5 4, mock_progress_of ''q3'' 5 3] mockQuestions))
     ''wind'' = Some \<lparr>correct = 7, total_t = 10\<rparr>"
  by (simp add: calculateStats_def progressMap_of_def stats_step_def Let_def
      mock_progress_of_def mockQuestions_def mock_q1_def mock_q2_def mock_q3_def)

lemma accuracy_example:
  "overallAccuracy (calculateStats [mock_progress_of ''q1'' 10 8] mockQuestions) = fl (4/5)
  \<and> newQuestions (calculateStats [mock_progress_of ''q1'' 10 8] mockQuestions) = 2
  \<and> masteredQuestions (calculateStats [mock_progress_of ''q1'' 10 8] mockQuestions) = 1"
  by (simp add: calculateStats_def progressMap_of_def stats_step_def Let_def
      mock_progress_of_def mockQuestions_def mock_q1_def mock_q2_def mock_q3_def)

text \<open>
  Claim C5. For every catalog and progress-record list, calculateStats counts a catalog
  question with no record as new, buckets each question that has a record by the record's
  stored mastery tag (\<open>counts_as\<close>), sets overallAccuracy to totalCorrect / totalAttempts
  over the recorded questions (the quotient of numbers; 0 when there are no attempts), and
  its topic breakdown at each topic is the sums of (correctCount, attempts) over the
  catalog questions of that topic that have a record (\<open>in_topic\<close>; no entry when there is
  no such question); two \<open>wind\<close> questions with (4, 5) and (3, 5) give
  \<open>{correct: 7, total: 10}\<close>. The record of a question is the last one of the list with
  its id.
\<close>

theorem calculateStats_spec:
  "totalQuestions (calculateStats progressList allQuestions) = length allQuestions
   \<and> newQuestions (calculateStats progressList allQuestions)
       = length (filter (counts_as (progressMap_of progressList) Mastery_new) allQuestions)
   \<and> learningQuestions (calculateStats progressList allQuestions)
       = length (filter (counts_as (progressMap_of progressList) Mastery_learning) allQuestions)
   \<and> masteredQuestions (calculateStats progressList allQuestions)
       = length (filter (counts_as (progressMap_of progressList) Mastery_mastered) allQuestions)
   \<and> overallAccuracy (calculateStats progressList allQuestions)
       = (if 0 < sum_list (map (attempts_of (progressMap_of progressList)) allQuestions)
          then fl (of_nat (sum_list (map (correct_of (progressMap_of progressList)) allQuestions))
                    / of_nat (sum_list (map (attempts_of (progressMap_of progressList)) allQuestions)))
          else 0)
   \<and> map_of (topicBreakdown (calculateStats progressList allQuestions)) t
       = (if filter (in_topic (progressMap_of progressList) t) allQuestions = [] then None
          else Some \<lparr>correct = sum_list (map (correct_of (progressMap_of progressList))
                                  (filter (in_topic (progressMap_of progressList) t) allQuestions)),
                     total_t = sum_list (map (attempts_of (progressMap_of progressList))
                                  (filter (in_topic (progressMap_of progressList) t) allQuestions))\<rparr>)
   \<and> progressMap_of progressList k = find (\<lambda>p. questionId p = k) (rev progressList)
   \<and> map_of (topicBreakdown
        (calculateStats [mock_progress_of ''q1'' 5 4, mock_progress_of ''q3'' 5 3] mockQuestions))
       ''wind'' = Some \<lparr>correct = 7, total_t = 10\<rparr>"
  by (intro conjI calculateStats_fields progressMap_of_find wind_example)

theorem calculateStats_spec_witness:
  "overallAccuracy (calculateStats [mock_progress_of ''q1'' 10 8] mockQuestions) = fl (4/5)
   \<and> newQuestions (calculateStats [mock_progress_of ''q1'' 10 8] mockQuestions) = 2
   \<and> masteredQuestions (calculateStats [mock_progress_of ''q1'' 10 8] mockQuestions) = 1
   \<and> length (filter (counts_as (progressMap_of [mock_progress_of ''q1'' 10 8]) Mastery_new)
        mockQuestions) = 2"
  using calculateStats_spec [of "[mock_progress_of ''q1'' 10 8]" mockQuestions "''wind''" "''q1''"]
    accuracy_example
  by simp

subsection \<open>getWeakestTopics\<close>










subsection \<open>selectQuestions\<close>

lemma applyFilters_filter: "applyFilters allQuestions config = filter (matches_config config) allQuestions"
  by (auto simp: applyFilters_def matches_config_def Let_def split: option.splits intro: filter_cong)

lemma random_index_le:
  assumes "0 \<le> r" "r \<le> 1 - 1 / 2 ^ 53"
  shows "nat \<lfloor>fl (r * of_nat (Suc i))\<rfloor> \<le> i"
proof -
  define n where "n = (of_nat (Suc i) :: rat)"
  have n: "1 \<le> n" by (simp add: n_def)
  define y where "y = n * (1 - 1 / 2 ^ 53)"
  have y: "0 \<le> y" using n by (simp add: y_def)
  have "r * n \<le> y"
    unfolding y_def using assms(2) n by (simp add: mult.commute mult_left_mono)
  then have "fl (r * n) \<le> fl y" by (rule fl_mono)
  also have "fl y \<le> y + (y / 2 ^ 53 + 1 / 2 ^ 1075)"
    using fl_err [of y] y by (simp add: abs_if split: if_splits)
  also have "\<dots> = n - n / 2 ^ 106 + 1 / 2 ^ 1075"
    by (simp add: y_def field_simps)
  also have "\<dots> < n"
  proof -
    have "(1::rat) / 2 ^ 1075 < 1 / 2 ^ 106" by simp
    also have "\<dots> \<le> n / 2 ^ 106" using n by (simp add: divide_right_mono)
    finally show ?thesis by simp
  qed
  finally have "fl (r * n) < of_int (int (Suc i))" by (simp add: n_def)
  then have "\<lfloor>fl (r * n)\<rfloor> < int (Suc i)" by (simp only: floor_less_iff)
  then show ?thesis by (simp add: n_def)
qed

lemma shuffle_loop_mset:
  assumes "\<forall>k. 0 \<le> rnd k \<and> rnd k \<le> 1 - 1 / 2 ^ 53"
  shows "n < length xs \<or> n = 0 \<Longrightarrow> mset (shuffle_loop rnd k n xs) = mset xs"
proof (induction n arbitrary: k xs)
  case 0
  then show ?case by simp
next
  case (Suc n)
  define j where "j = nat \<lfloor>fl (rnd k * of_nat (Suc n + 1))\<rfloor>"
  have j: "j \<le> Suc n"
    unfolding j_def using assms random_index_le [of "rnd k" "Suc n"] by simp
  have len: "Suc n < length xs" using Suc.prems by simp
  let ?ys = "xs[Suc n := xs ! j, j := xs ! Suc n]"
  have "mset ?ys = mset xs"
    using mset_swap [of j xs "Suc n"] j len by simp
  moreover have "mset (shuffle_loop rnd (Suc k) n ?ys) = mset ?ys"
    by (rule Suc.IH) (use len in simp)
  ultimately show ?case by (simp add: Let_def j_def)
qed

lemma shuffleArray_mset:
  assumes "\<forall>k. 0 \<le> rnd k \<and> rnd k \<le> 1 - 1 / 2 ^ 53"
  shows "mset (shuffleArray rnd xs) = mset xs"
  unfolding shuffleArray_def
  by (rule shuffle_loop_mset [OF assms]) (cases xs; simp)

lemma mset_take_subseteq: "mset (take n xs) \<subseteq># mset xs"
proof -
  have "mset xs = mset (take n xs) + mset (drop n xs)"
    by (metis append_take_drop_id mset_append)
  then show ?thesis by simp
qed

lemma slice0_subseteq: "mset (slice0 xs n) \<subseteq># mset xs"
  by (simp add: slice0_def mset_take_subseteq)

lemma selectQuestions_properties:
  assumes "\<forall>k. 0 \<le> rnd k \<and> rnd k \<le> 1 - 1 / 2 ^ 53"
  shows "mset (selectQuestions rnd allQuestions config) \<subseteq># mset (applyFilters allQuestions config)"
    and "cfg_questionCount config = None \<Longrightarrow>
           length (selectQuestions rnd allQuestions config) = length (applyFilters allQuestions config)"
    and "cfg_questionCount config = Some n \<Longrightarrow> 0 < n \<Longrightarrow>
           length (selectQuestions rnd allQuestions config)
             = min (nat n) (length (applyFilters allQuestions config))"
proof -
  let ?f = "applyFilters allQuestions config"
  have m: "mset (shuffleArray rnd ?f) = mset ?f"
    by (rule shuffleArray_mset [OF assms])
  then have l: "length (shuffleArray rnd ?f) = length ?f"
    by (metis size_mset)
  show "mset (selectQuestions rnd allQuestions config) \<subseteq># mset ?f"
    using slice0_subseteq [of "shuffleArray rnd ?f"] m
    by (simp add: selectQuestions_def Let_def)
  show "length (selectQuestions rnd allQuestions config) = length ?f"
    if "cfg_questionCount config = None"
    using that l by (simp add: selectQuestions_def Let_def slice0_def)
  show "length (selectQuestions rnd allQuestions config) = min (nat n) (length ?f)"
    if "cfg_questionCount config = Some n" "0 < n"
    using that l by (simp add: selectQuestions_def Let_def slice0_def min_def)
qed

text \<open>
  Claim C3, as stated: when a requested count is supplied, the length of the output of
  selectQuestions is min(requestedCount, filteredSize). This fails for the count 0:
  \<open>config.questionCount || shuffled.length\<close> takes the length for it, and all three
  questions are returned.
\<close>

theorem selectQuestions_count_zero:
  "cfg_questionCount config_count_0 = Some 0
   \<and> length (selectQuestions (\<lambda>k. 0) mockQuestions config_count_0) = 3
   \<and> min (nat 0) (length (applyFilters mockQuestions config_count_0)) = 0"
proof -
  have "length (selectQuestions (\<lambda>k. 0) mockQuestions config_count_0) = 3"
    by code_simp
  then show ?thesis by (simp add: config_count_0_def)
qed

text \<open>
  Claim C3, amended: for every catalog, every config and every outcome of the random
  shuffle (every stream of values of \<open>Math.random()\<close>, which are the numbers in [0, 1)),
  the output of selectQuestions is a multiset subset of the catalog filtered by the
  config's grade-level and topic filters (\<open>matches_config\<close>); when a requested count
  greater than 0 is supplied its length is min(requestedCount, filteredSize), and when no
  count is supplied its length is filteredSize.
\<close>

theorem selectQuestions_subset_and_length:
  "(\<forall>k. 0 \<le> rnd k \<and> rnd k \<le> 1 - 1 / 2 ^ 53) \<longrightarrow>
     applyFilters allQuestions config = filter (matches_config config) allQuestions
     \<and> mset (selectQuestions rnd allQuestions config)
         \<subseteq># mset (filter (matches_config config) allQuestions)
     \<and> (cfg_questionCount config = None \<longrightarrow>
          length (selectQuestions rnd allQuestions config)
            = length (filter (matches_config config) allQuestions))
     \<and> (\<forall>n. cfg_questionCount config = Some n \<and> 0 < n \<longrightarrow>
          length (selectQuestions rnd allQuestions config)
            = min (nat n) (length (filter (matches_config config) allQuestions)))"
proof (intro impI)
  assume r: "\<forall>k. 0 \<le> rnd k \<and> rnd k \<le> 1 - 1 / 2 ^ 53"
  note p = selectQuestions_properties [OF r, where allQuestions = allQuestions and config = config]
  show "applyFilters allQuestions config = filter (matches_config config) allQuestions
     \<and> mset (selectQuestions rnd allQuestions config)
         \<subseteq># mset (filter (matches_config config) allQuestions)
     \<and> (cfg_questionCount config = None \<longrightarrow>
          length (selectQuestions rnd allQuestions config)
            = length (filter (matches_config config) allQuestions))
     \<and> (\<forall>n. cfg_questionCount config = Some n \<and> 0 < n \<longrightarrow>
          length (selectQuestions rnd allQuestions config)
            = min (nat n) (length (filter (matches_config config) allQuestions)))"
    using p by (auto simp: applyFilters_filter)
qed

theorem selectQuestions_subset_and_length_witness:
  "(0::rat) \<le> 1/2 \<and> (1/2::rat) \<le> 1 - 1 / 2 ^ 53
   \<and> cfg_questionCount config_wind_1 = Some 1
   \<and> filter (matches_config config_wind_1) mockQuestions = [mock_q1, mock_q3]
   \<and> selectQuestions (\<lambda>k. 1/2) mockQuestions config_wind_1 = [mock_q1]
   \<and> length (selectQuestions (\<lambda>k. 1/2) mockQuestions config_wind_1) = min (nat 1) 2"
proof -
  have r: "\<forall>k::nat. (0::rat) \<le> 1/2 \<and> (1/2::rat) \<le> 1 - 1 / 2 ^ 53"
    by simp
  have f: "filter (matches_config config_wind_1) mockQuestions = [mock_q1, mock_q3]"
    by (simp add: matches_config_def config_wind_1_def mockQuestions_def mock_q1_def
        mock_q2_def mock_q3_def)
  have s: "selectQuestions (\<lambda>k. 1/2) mockQuestions config_wind_1 = [mock_q1]"
    by code_simp
  show ?thesis
    using selectQuestions_subset_and_length [of "\<lambda>k. 1/2" mockQuestions config_wind_1] r f s
    by (simp add: config_wind_1_def)
qed

subsection \<open>getNextQuestion and isQuizComplete\<close>

lemma getNextQuestion_in_range:
  "0 \<le> i \<Longrightarrow> i < int (length qs) \<Longrightarrow> getNextQuestion qs i = Val (qs ! nat i)"
  by (simp add: getNextQuestion_def array_get_def)

lemma getNextQuestion_past_end:
  "int (length qs) \<le> i \<Longrightarrow> getNextQuestion qs i = Null"
  by (simp add: getNextQuestion_def)

lemma getNextQuestion_negative:
  "i < 0 \<Longrightarrow> getNextQuestion qs i = Undefined"
  by (simp add: getNextQuestion_def array_get_def)

text \<open>
  Claim C9. For every question list and every integer index, getNextQuestion returns the
  question at the index when the index is in range and the explicit "none" result
  (\<open>null\<close>) whenever the index is out of range. The code checks only the upper bound:
  at index \<open>-1\<close> the array read \<open>questions[-1]\<close> is returned, which is \<open>undefined\<close> and
  not \<open>null\<close>, the result the declared type \<open>Question | null\<close> promises.
\<close>

theorem getNextQuestion_negative_index_undefined:
  "getNextQuestion mockQuestions (- 1) = Undefined
   \<and> getNextQuestion mockQuestions (- 1) \<noteq> Null"
  by (simp add: getNextQuestion_def array_get_def)

text \<open>
  Claim C10. For every question list \<open>qs\<close> and every index \<open>i \<ge> 0\<close>,
  \<open>isQuizComplete i (length qs)\<close> is true exactly when \<open>getNextQuestion qs i\<close> is the
  "none" result \<open>null\<close>.
\<close>

theorem isQuizComplete_iff_getNextQuestion_Null:
  "0 \<le> i \<Longrightarrow> isQuizComplete i (int (length qs)) \<longleftrightarrow> getNextQuestion qs i = Null"
  by (simp add: isQuizComplete_def getNextQuestion_def array_get_def)

theorem isQuizComplete_iff_getNextQuestion_Null_witness:
  "(0::int) \<le> 3
   \<and> (isQuizComplete 3 (int (length mockQuestions)) \<longleftrightarrow> getNextQuestion mockQuestions 3 = Null)
   \<and> isQuizComplete 3 (int (length mockQuestions))"
  using isQuizComplete_iff_getNextQuestion_Null [of 3 mockQuestions]
  by (simp add: isQuizComplete_def mockQuestions_def)

end
